theory Spec2Isabelle
  imports Complex_Main "HOL-Library.Log_Nat" "HOL-Library.AList"
begin

section \<open>Python values used by the model\<close>

text \<open>
  Exceptions and process exit of the Python source are values of \<open>error\<close>; a function
  that mutates \<open>self\<close> returns the object after the call next to its outcome, because
  the mutation done before a \<open>raise\<close> stays visible.
\<close>

datatype error =
    KeyError string
  | ValueError string
  | TypeError
  | AssertionError
  | IndexError
  | ZeroDivisionError
  | IOError string
  | SystemExit

text \<open>
  \<open>xs[start:stop]\<close> for a list or the first axis of an array: a negative bound counts
  from the end, both bounds are clamped to the length, and an empty range gives the
  empty sequence.
\<close>

definition py_slice :: "'a list \<Rightarrow> int \<Rightarrow> int \<Rightarrow> 'a list" where
  "py_slice xs start stop =
     (let n = int (length xs);
          s = (if start < 0 then max (start + n) 0 else min start n);
          e = (if stop < 0 then max (stop + n) 0 else min stop n)
      in take (nat (e - s)) (drop (nat s) xs))"

text \<open>\<open>np.arange(n)\<close> and indexing an array with an index array (\<open>a[perm]\<close>).\<close>

definition np_arange :: "int \<Rightarrow> nat list" where
  "np_arange n = [0 ..< nat n]"

definition np_take :: "'a list \<Rightarrow> nat list \<Rightarrow> error + 'a list" where
  "np_take a perm =
     (if list_all (\<lambda>i. i < length a) perm then Inr (map (\<lambda>i. a ! i) perm) else Inl IndexError)"

section \<open>Binary64 arithmetic\<close>

text \<open>
  A Python float is an IEEE 754 binary64 number. A finite one is a rational, and the
  result of an arithmetic operation is the exact rational result rounded to the nearest
  representable number, ties to the even significand. \<open>ilog2 q\<close> is the binary exponent
  of a positive \<open>q\<close>; the spacing of the representable numbers around \<open>q\<close> is
  \<open>2 ^ (ilog2 q - 52)\<close>, and \<open>2 ^ (- 1074)\<close> below the smallest normal number.
  Overflow to infinity is not modelled: \<open>img_norm_finite\<close> below shows that the
  operations of this file stay far inside the finite range on every finite input.
\<close>

definition pow2 :: "int \<Rightarrow> rat" where
  "pow2 k = (if 0 \<le> k then 2 ^ nat k else 1 / 2 ^ nat (- k))"

definition round_half_even :: "rat \<Rightarrow> int" where
  "round_half_even x =
     (let f = \<lfloor>x\<rfloor>; r = x - of_int f
      in if r < 1 / 2 then f else if 1 / 2 < r then f + 1 else if even f then f else f + 1)"

definition ilog2 :: "rat \<Rightarrow> int" where
  "ilog2 q = (if 1 \<le> q then bitlen \<lfloor>q\<rfloor> - 1 else - bitlen (\<lceil>1 / q\<rceil> - 1))"

definition round_binary64 :: "rat \<Rightarrow> rat" where
  "round_binary64 q =
     (if q = 0 then 0
      else let k = max (ilog2 \<bar>q\<bar>) (- 1022) - 52
           in of_int (round_half_even (q / pow2 k)) * pow2 k)"

definition float_mul :: "rat \<Rightarrow> rat \<Rightarrow> rat" where
  "float_mul x y = round_binary64 (x * y)"

definition float_sub :: "rat \<Rightarrow> rat \<Rightarrow> rat" where
  "float_sub x y = round_binary64 (x - y)"

text \<open>\<open>a / b\<close> of two Python ints: the correctly rounded quotient, or ZeroDivisionError.\<close>

definition int_truediv :: "int \<Rightarrow> int \<Rightarrow> error + rat" where
  "int_truediv a b =
     (if b = 0 then Inl ZeroDivisionError else Inr (round_binary64 (of_int a / of_int b)))"

section \<open>Data: in-memory batching\<close>

text \<open>
  An image is the flattened array of its pixel values; a pixel value (an unsigned byte
  or a float) is the rational it denotes. \<open>Data.img_norm\<close> is
  \<^verbatim>\<open>(x * (1 / max_val) - 0.5) * 2\<close> on every element of the stack \<open>x\<close>.
\<close>

type_synonym image = "rat list"

definition img_norm_elem :: "rat \<Rightarrow> rat \<Rightarrow> rat" where
  "img_norm_elem recip x = float_mul (float_sub (float_mul x recip) (1 / 2)) 2"

definition img_norm :: "image list \<Rightarrow> int \<Rightarrow> error + image list" where
  "img_norm x max_val =
     (case int_truediv 1 max_val of
        Inl e \<Rightarrow> Inl e
      | Inr recip \<Rightarrow> Inr (map (map (img_norm_elem recip)) x))"

text \<open>
  The fields of a \<open>Data\<close> object that the batching methods read and write. The three
  partition sizes are fields of their own (\<open>_num_train_images\<close> and so on, set once
  by the constructor), not the lengths of the arrays. The images and labels of a
  partition are arrays (the reshuffle indexes them with an index array), here the list
  of their entries along the first axis.
\<close>

record 'l data =
  test_images :: "image list"
  test_labels :: "'l list"
  num_test_images :: int
  num_train_images :: int
  num_valid_images :: int
  train_images :: "image list"
  train_labels :: "'l list"
  valid_images :: "image list"
  valid_labels :: "'l list"
  train_epochs_completed :: int
  index_in_train_epoch :: int
  index_in_valid_epoch :: int
  index_in_test_epoch :: int

text \<open>
  The last line of \<open>next_train_batch\<close>:
  \<^verbatim>\<open>return self.train_labels[start:end], self.img_norm(self.train_images[start:end])\<close>
  with \<open>end = self.index_in_train_epoch\<close>.
\<close>

definition train_return ::
  "int \<Rightarrow> 'l data \<Rightarrow> (error + ('l list \<times> image list)) \<times> 'l data" where
  "train_return start d =
     (let stop = index_in_train_epoch d
      in case img_norm (py_slice (train_images d) start stop) 255 of
           Inl e \<Rightarrow> (Inl e, d)
         | Inr imgs \<Rightarrow> (Inr (py_slice (train_labels d) start stop, imgs), d))"

text \<open>
  \<open>next_train_batch\<close>. The argument \<open>shuffle\<close> is what \<open>np.random.shuffle\<close> does to
  the index array at this call. The assertion on the batch size comes after the counter,
  the arrays and the cursor have been written.
\<close>

definition next_train_batch ::
  "(nat list \<Rightarrow> nat list) \<Rightarrow> int \<Rightarrow> 'l data \<Rightarrow> (error + ('l list \<times> image list)) \<times> 'l data" where
  "next_train_batch shuffle batch_size d =
     (let start = index_in_train_epoch d;
          d1 = d\<lparr>index_in_train_epoch := index_in_train_epoch d + batch_size\<rparr>
      in if index_in_train_epoch d1 > num_train_images d1 then
           (let d2 = d1\<lparr>train_epochs_completed := train_epochs_completed d1 + 1\<rparr>;
                perm = shuffle (np_arange (num_train_images d2))
            in case np_take (train_images d2) perm of
                 Inl e \<Rightarrow> (Inl e, d2)
               | Inr imgs \<Rightarrow>
                   (let d3 = d2\<lparr>train_images := imgs\<rparr>
                    in case np_take (train_labels d3) perm of
                         Inl e \<Rightarrow> (Inl e, d3)
                       | Inr labs \<Rightarrow>
                           (let d4 = d3\<lparr>train_labels := labs, index_in_train_epoch := batch_size\<rparr>
                            in if batch_size \<le> num_train_images d4 then train_return 0 d4
                               else (Inl AssertionError, d4))))
         else train_return start d1)"

text \<open>
  \<open>next_valid_batch\<close> and \<open>next_test_batch\<close> return
  \<open>(labels[start:end], img_norm(images[start:end]), end, batch_size)\<close>. The test
  variant also prints \<open>start\<close>; standard output is not part of this model of \<open>Data\<close>.
\<close>

definition next_valid_batch ::
  "int \<Rightarrow> 'l data \<Rightarrow> (error + ('l list \<times> image list \<times> int \<times> int)) \<times> 'l data" where
  "next_valid_batch batch_size d =
     (let start = index_in_valid_epoch d;
          batch_size = (if index_in_valid_epoch d + batch_size > num_valid_images d
                        then 1 else batch_size);
          d = d\<lparr>index_in_valid_epoch := index_in_valid_epoch d + batch_size\<rparr>;
          stop = index_in_valid_epoch d
      in case img_norm (py_slice (valid_images d) start stop) 255 of
           Inl e \<Rightarrow> (Inl e, d)
         | Inr imgs \<Rightarrow> (Inr (py_slice (valid_labels d) start stop, imgs, stop, batch_size), d))"

definition next_test_batch ::
  "int \<Rightarrow> 'l data \<Rightarrow> (error + ('l list \<times> image list \<times> int \<times> int)) \<times> 'l data" where
  "next_test_batch batch_size d =
     (let start = index_in_test_epoch d;
          batch_size = (if index_in_test_epoch d + batch_size > num_test_images d
                        then 1 else batch_size);
          d = d\<lparr>index_in_test_epoch := index_in_test_epoch d + batch_size\<rparr>;
          stop = index_in_test_epoch d
      in case img_norm (py_slice (test_images d) start stop) 255 of
           Inl e \<Rightarrow> (Inl e, d)
         | Inr imgs \<Rightarrow> (Inr (py_slice (test_labels d) start stop, imgs, stop, batch_size), d))"


definition batch_at :: "int \<Rightarrow> int \<Rightarrow> 'l data \<Rightarrow> nat \<Rightarrow> error + ('l list \<times> image list)" where
  "batch_at c b d i =
     Inr (py_slice (train_labels d) (c + int i * b) (c + int i * b + b),
          map (map (img_norm_elem (round_binary64 (1 / 255))))
            (py_slice (train_images d) (c + int i * b) (c + int i * b + b)))"

text \<open>A small data set: three training, three validation and two test examples of one pixel.\<close>

definition demo_data :: "nat data" where
  "demo_data =
     \<lparr>test_images = [[0], [255]], test_labels = [7, 8], num_test_images = 2,
      num_train_images = 3, num_valid_images = 3,
      train_images = [[0], [51], [102]], train_labels = [10, 20, 30],
      valid_images = [[0], [255], [51]], valid_labels = [4, 5, 6],
      train_epochs_completed = 0, index_in_train_epoch = 0,
      index_in_valid_epoch = 2, index_in_test_epoch = 1\<rparr>"

section \<open>Model: configuration\<close>

text \<open>
  Configuration values. A mapping read from a YAML file is an \<open>EasyDict\<close> (as are the
  mappings nested in it), a type of its own next to the built-in \<open>dict\<close>; an array
  carries its dtype. A dictionary is the list of its items in insertion order;
  \<open>AList.update k v d\<close> is \<open>d[k] = v\<close>: the value of an existing key is replaced
  in place, a new key goes to the end.
\<close>

datatype val =
    VNone
  | VBool bool
  | VInt int
  | VFloat rat
  | VStr string
  | VList "val list"
  | VArr string "val list"
  | VDict "(string \<times> val) list"
  | VEDict "(string \<times> val) list"

type_synonym pydict = "(string \<times> val) list"

datatype pytype = TNone | TBool | TInt | TFloat | TStr | TList | TNdarray | TDict | TEDict

fun type_of :: "val \<Rightarrow> pytype" where
  "type_of VNone = TNone"
| "type_of (VBool _) = TBool"
| "type_of (VInt _) = TInt"
| "type_of (VFloat _) = TFloat"
| "type_of (VStr _) = TStr"
| "type_of (VList _) = TList"
| "type_of (VArr _ _) = TNdarray"
| "type_of (VDict _) = TDict"
| "type_of (VEDict _) = TEDict"

definition keys :: "pydict \<Rightarrow> string set" where
  "keys d = fst ` set d"

text \<open>
  The loop of \<open>_merge_a_into_b\<close> over the items of \<open>a\<close>, with \<open>b\<close> updated in place:
  the result is the exception that ended the loop, if any, and \<open>b\<close> as the loop left
  it. \<open>np_array v dtype\<close> stands for \<open>np.array(v, dtype=dtype)\<close>, which gives the
  elements of the new array or raises. An error carries the offending key; the
  \<open>print\<close> of the key on the way out of a nested failure is left out.
\<close>

fun merge_items ::
  "(val \<Rightarrow> string \<Rightarrow> error + val list) \<Rightarrow> pydict \<Rightarrow> pydict \<Rightarrow> error option \<times> pydict" where
  "merge_items np_array [] b = (None, b)"
| "merge_items np_array ((k, v) # rest) b =
     (case map_of b k of
        None \<Rightarrow> (Some (KeyError k), b)
      | Some old \<Rightarrow>
          if type_of old \<noteq> type_of v then
            (case old of
               VArr dtype _ \<Rightarrow>
                 (case np_array v dtype of
                    Inl e \<Rightarrow> (Some e, b)
                  | Inr elems \<Rightarrow> merge_items np_array rest (AList.update k (VArr dtype elems) b))
             | _ \<Rightarrow> (Some (ValueError k), b))
          else
            (case (v, old) of
               (VEDict va, VEDict vb) \<Rightarrow>
                 (case merge_items np_array va vb of
                    (Some e, vb') \<Rightarrow> (Some e, AList.update k (VEDict vb') b)
                  | (None, vb') \<Rightarrow> merge_items np_array rest (AList.update k (VEDict vb') b))
             | _ \<Rightarrow> merge_items np_array rest (AList.update k v b)))"

text \<open>
  \<open>_merge_a_into_b\<close> returns \<open>None\<close> when \<open>a\<close> is not an \<open>EasyDict\<close>, and \<open>b\<close>
  after the loop otherwise; the second component is \<open>b\<close> after the call.
\<close>

definition merge_a_into_b ::
  "(val \<Rightarrow> string \<Rightarrow> error + val list) \<Rightarrow> val \<Rightarrow> pydict \<Rightarrow> (error + pydict option) \<times> pydict" where
  "merge_a_into_b np_array a b =
     (case a of
        VEDict items \<Rightarrow>
          (case merge_items np_array items b of
             (Some e, b') \<Rightarrow> (Inl e, b')
           | (None, b') \<Rightarrow> (Inr (Some b'), b'))
      | _ \<Rightarrow> (Inr None, b))"

definition merge_a_into_b_simple :: "pydict \<Rightarrow> pydict \<Rightarrow> pydict" where
  "merge_a_into_b_simple a b = foldl (\<lambda>b (k, v). AList.update k v b) b a"

text \<open>
  \<open>cfg_from_file\<close>: \<open>yaml_load name\<close> stands for opening the file \<open>name\<close> and
  \<open>edict(yaml.load(f))\<close>, the items of the mapping in the file or the exception raised.
\<close>

definition cfg_from_file ::
  "(val \<Rightarrow> string \<Rightarrow> error + val list) \<Rightarrow> (val \<Rightarrow> error + pydict) \<Rightarrow> val \<Rightarrow> pydict \<Rightarrow>
     (error + pydict option) \<times> pydict" where
  "cfg_from_file np_array yaml_load yaml_filename config_dict =
     (case yaml_load yaml_filename of
        Inl e \<Rightarrow> (Inl e, config_dict)
      | Inr yaml_cfg \<Rightarrow> merge_a_into_b np_array (VEDict yaml_cfg) config_dict)"

text \<open>
  \<open>load_config_yaml\<close> returns the mapping and what it printed. The \<open>try\<close> block holds
  the lookup of \<open>flags['YAML_FILE']\<close> and the whole call of \<open>cfg_from_file\<close>, so
  \<open>except KeyError\<close> also catches the KeyError that \<open>_merge_a_into_b\<close> raises for a
  key of the file that the config dict does not have; any other exception goes on to
  the caller. A result \<open>None\<close> of \<open>cfg_from_file\<close> would make the first assignment of
  \<open>_merge_a_into_b_simple\<close> a TypeError (\<open>flags\<close> holds \<open>YAML_FILE\<close> at that point).
\<close>

definition load_config_yaml ::
  "(val \<Rightarrow> string \<Rightarrow> error + val list) \<Rightarrow> (val \<Rightarrow> error + pydict) \<Rightarrow> pydict \<Rightarrow> pydict option \<Rightarrow>
     (error + pydict) \<times> string list" where
  "load_config_yaml np_array yaml_load flags config_dict =
     (case config_dict of
        None \<Rightarrow> (Inr flags, [''Config File not specified. Using only input flags.''])
      | Some cd \<Rightarrow>
          (case map_of flags ''YAML_FILE'' of
             None \<Rightarrow>
               (Inr cd, [''Yaml File not specified. Using only input flags and config file.''])
           | Some yaml_filename \<Rightarrow>
               (case cfg_from_file np_array yaml_load yaml_filename cd of
                  (Inl (KeyError k), cd') \<Rightarrow>
                    (Inr cd', [''Yaml File not specified. Using only input flags and config file.''])
                | (Inl e, cd') \<Rightarrow> (Inl e, [])
                | (Inr None, cd') \<Rightarrow>
                    (Inl TypeError, [''Using input flags, config file, and yaml file.''])
                | (Inr (Some config_yaml_dict), cd') \<Rightarrow>
                    (Inr (merge_a_into_b_simple flags config_yaml_dict),
                     [''Using input flags, config file, and yaml file.'']))))"

text \<open>
  \<open>check_dict_keys\<close>: the first loop exits the process at the first crucial key that is
  missing (\<open>exit()\<close> is the outcome \<open>SystemExit\<close>), the second loop fills the optional
  keys and prints a line for each one it fills.
\<close>

definition crucial_keys :: "string list" where
  "crucial_keys = [''MODEL_DIRECTORY'', ''SAVE_DIRECTORY'']"

definition optional_keys :: "string list" where
  "optional_keys = [''RESTORE_SLIM_FILE'', ''RESTORE_META'', ''RESTORE_SLIM'', ''SEED'', ''GPU'']"

fun first_missing :: "string list \<Rightarrow> pydict \<Rightarrow> string option" where
  "first_missing [] d = None"
| "first_missing (key # rest) d = (if key \<notin> keys d then Some key else first_missing rest d)"

fun fill_optional :: "string list \<Rightarrow> pydict \<Rightarrow> pydict \<times> string list" where
  "fill_optional [] d = (d, [])"
| "fill_optional (key # rest) d =
     (if key \<notin> keys d
      then (let (d', out) = fill_optional rest (AList.update key VNone d)
            in (d', (key @ '' in flags, yaml or config dictionary was not found.'') # out))
      else fill_optional rest d)"

definition check_dict_keys :: "pydict \<Rightarrow> (error + pydict) \<times> string list" where
  "check_dict_keys config_yaml_flags_dict =
     (case first_missing crucial_keys config_yaml_flags_dict of
        Some key \<Rightarrow> (Inl SystemExit, [''You must define '' @ key @ ''. Now exiting...''])
      | None \<Rightarrow>
          (let (d1, out) = fill_optional optional_keys config_yaml_flags_dict;
               d2 = (if ''RUN_NUM'' \<notin> keys d1 then AList.update ''RUN_NUM'' (VInt 0) d1 else d1);
               d3 = (if ''NUM_EPOCHS'' \<notin> keys d2 then AList.update ''NUM_EPOCHS'' (VInt 1) d2 else d2)
           in (Inr d3, out)))"

text \<open>Inputs for the examples: no array coercion, and a file system with the one file \<open>cfg.yml\<close>.\<close>

definition no_np_array :: "val \<Rightarrow> string \<Rightarrow> error + val list" where
  "no_np_array v dtype = Inl TypeError"

definition one_file :: "pydict \<Rightarrow> val \<Rightarrow> error + pydict" where
  "one_file content name =
     (if name = VStr ''cfg.yml'' then Inr content else Inl (IOError ''No such file or directory''))"

definition demo_config :: pydict where
  "demo_config =
     [(''MODEL_DIRECTORY'', VStr ''conv/''), (''SAVE_DIRECTORY'', VStr ''/tmp/''),
      (''SEED'', VInt 3), (''NUM_EPOCHS'', VInt 20)]"

section \<open>Model: slim restore\<close>

text \<open>
  A variable of the graph, by the name of its op. \<open>name_in_checkpoint\<close> has no
  \<open>else\<close> branch: it falls off its end, which returns \<open>None\<close>, when the name does not
  start with \<open>model/\<close>.
\<close>

record variable =
  op_name :: string

definition startswith :: "string \<Rightarrow> string \<Rightarrow> bool" where
  "startswith s p = (take (length p) s = p)"

definition name_in_checkpoint :: "variable \<Rightarrow> string option" where
  "name_in_checkpoint var =
     (if startswith (op_name var) ''model/''
      then Some (drop (length ''model/'') (op_name var))
      else None)"

text \<open>\<open>sub in s\<close> for two strings.\<close>

definition str_contains :: "string \<Rightarrow> string \<Rightarrow> bool" where
  "str_contains sub s = list_ex (\<lambda>i. take (length sub) (drop i s) = sub) [0 ..< Suc (length s)]"

text \<open>
  \<open>get_variables_in_checkpoint_file\<close>: \<open>reader filename\<close> stands for the checkpoint
  reader of the framework, which gives the map from variable names to shapes or raises
  with a message. On an exception the method prints and falls off its end.
\<close>

definition get_variables_in_checkpoint_file ::
  "(string \<Rightarrow> string + (string \<times> int list) list) \<Rightarrow> string \<Rightarrow>
     (string \<times> int list) list option \<times> string list" where
  "get_variables_in_checkpoint_file reader filename =
     (case reader filename of
        Inr var_to_shape_map \<Rightarrow> (Some var_to_shape_map, [])
      | Inl msg \<Rightarrow>
          (None,
           msg # (if str_contains ''corrupted compressed block contents'' msg
                  then [''It's likely that your checkpoint file has been compressed with SNAPPY.'']
                  else [])))"

text \<open>
  \<open>name in var_to_shape_map\<close>: the keys of the map are strings, so \<open>None\<close> is not
  among them.
\<close>

definition name_in :: "string option \<Rightarrow> (string \<times> 'a) list \<Rightarrow> bool" where
  "name_in name m = (case name of None \<Rightarrow> False | Some s \<Rightarrow> s \<in> fst ` set m)"

text \<open>
  The dictionary comprehension
  \<^verbatim>\<open>{name_in_checkpoint(v): v for v in variables if name_in_checkpoint(v) in ckpt}\<close>,
  built from left to right.
\<close>

fun select_variables ::
  "(string \<times> 'a) list \<Rightarrow> variable list \<Rightarrow> (string \<times> variable) list \<Rightarrow> (string \<times> variable) list" where
  "select_variables ckpt [] acc = acc"
| "select_variables ckpt (v # vs) acc =
     (if name_in (name_in_checkpoint v) ckpt
      then (case name_in_checkpoint v of
              Some s \<Rightarrow> select_variables ckpt vs (AList.update s v acc)
            | None \<Rightarrow> select_variables ckpt vs acc)
      else select_variables ckpt vs acc)"

text \<open>
  \<open>x is []\<close> compares the identity of \<open>x\<close> with a list object created by the
  expression itself, so it is false for every \<open>x\<close>.
\<close>

definition is_new_empty_list :: "'a \<Rightarrow> bool" where
  "is_new_empty_list x = False"

text \<open>
  \<open>_restore_slim\<close>, with the value of \<open>flags['RESTORE_SLIM_FILE']\<close> as an argument.
  \<open>Restored m\<close> is the outcome of reaching \<open>tf.train.Saver(m)\<close> and
  \<open>saver.restore\<close> with the map \<open>m\<close> from checkpoint names to variables; what the
  framework does with it is not modelled. When the checkpoint could not be read the
  membership test of the comprehension is a TypeError for the first variable.
\<close>

datatype restore_outcome =
    Raised error
  | Restored "(string \<times> variable) list"

definition restore_slim ::
  "(string \<Rightarrow> string + (string \<times> int list) list) \<Rightarrow> string \<Rightarrow> variable list \<Rightarrow>
     restore_outcome \<times> string list" where
  "restore_slim reader restore_slim_file variables =
     (case get_variables_in_checkpoint_file reader restore_slim_file of
        (None, out) \<Rightarrow>
          (if variables = []
           then (Restored [], out @ [''Model restored from '' @ restore_slim_file])
           else (Raised TypeError, out))
      | (Some ckpt, out) \<Rightarrow>
          (let variables_to_restore = select_variables ckpt variables []
           in if is_new_empty_list variables_to_restore
              then (Raised SystemExit,
                    out @ [''Check the SLIM checkpoint filename. No model variables matched the checkpoint variables.''])
              else (Restored variables_to_restore,
                    out @ [''Model restored from '' @ restore_slim_file])))"

text \<open>A checkpoint with one variable, for the examples.\<close>

definition demo_reader :: "string \<Rightarrow> string + (string \<times> int list) list" where
  "demo_reader filename = Inr [(''conv_1/weights'', [3, 3, 1, 8])]"

section \<open>Layers\<close>

text \<open>\<open>str(n)\<close> for an integer.\<close>

definition digit_char :: "nat \<Rightarrow> char" where
  "digit_char n = ''0123456789'' ! n"

fun str_nat :: "nat \<Rightarrow> string" where
  "str_nat n = (if n < 10 then [digit_char n] else str_nat (n div 10) @ [digit_char (n mod 10)])"

declare str_nat.simps [simp del]

definition str_int :: "int \<Rightarrow> string" where
  "str_int i = (if i < 0 then CHR ''-'' # str_nat (nat (- i)) else str_nat (nat i))"

text \<open>
  The builder owns one tensor, \<open>self.input\<close>, and the dictionary \<open>self.count\<close>, whose
  eight keys are fixed by the constructor. Each method opens a variable scope, applies
  the operations of one layer to the tensor and stores the result. The tensor is kept
  symbolically: \<open>Layer scope op t\<close> is the output of the layer \<open>op\<close>, built under the
  scope name \<open>scope\<close>, on the tensor \<open>t\<close>. What the framework computes, the shapes it
  infers and the exceptions it raises for shapes that do not fit are not modelled, and
  neither is the line each method prints. A stride, a bias, a scale or a keep
  probability is the rational it denotes; an activation function is its name. The
  arguments of every method are passed in full, in the order of its signature; the
  defaults of the signature are the caller's business.
\<close>

datatype fsize = Size int | InputWidth

datatype layer_op =
    Conv2d fsize int rat string bool "string option" "rat option" "rat option" bool
  | Deconv2d int int rat string "string option" "rat option" "rat option" bool bool
  | Flatten rat
  | Fc int rat "string option" "rat option" "rat option" bool bool
  | Maxpool int "int option" bool
  | Avgpool int "int option" bool
  | ResLayer int int rat "string option" bool bool
  | NoisyAnd int bool

datatype tensor = Given string | Layer string layer_op tensor

record layer_count =
  conv :: int
  deconv :: int
  fc :: int
  flat :: int
  mp :: int
  up :: int
  ap :: int
  rn :: int

record layers =
  input :: tensor
  count :: layer_count

definition init_layers :: "tensor \<Rightarrow> layers" where
  "init_layers x =
     \<lparr>input = x,
      count = \<lparr>conv = 0, deconv = 0, fc = 0, flat = 0, mp = 0, up = 0, ap = 0, rn = 0\<rparr>\<rparr>"

text \<open>
  \<open>conv2d\<close>: a filter size of 0 takes the width of the input as the filter size and
  forces the padding \<open>VALID\<close>.
\<close>

definition conv2d ::
  "int \<Rightarrow> int \<Rightarrow> rat \<Rightarrow> string \<Rightarrow> bool \<Rightarrow> string option \<Rightarrow> rat option \<Rightarrow> rat option \<Rightarrow> bool \<Rightarrow>
     layers \<Rightarrow> layers" where
  "conv2d filter_size output_channels stride padding bn activation_fn b_value s_value trainable self =
     (let c = (count self)\<lparr>conv := conv (count self) + 1\<rparr>;
          scope = ''conv_'' @ str_int (conv c);
          (fs, pad) = (if filter_size = 0 then (InputWidth, ''VALID'') else (Size filter_size, padding))
      in self\<lparr>count := c,
              input := Layer scope
                (Conv2d fs output_channels stride pad bn activation_fn b_value s_value trainable)
                (input self)\<rparr>)"

definition deconv2d ::
  "int \<Rightarrow> int \<Rightarrow> rat \<Rightarrow> string \<Rightarrow> string option \<Rightarrow> rat option \<Rightarrow> rat option \<Rightarrow> bool \<Rightarrow> bool \<Rightarrow>
     layers \<Rightarrow> layers" where
  "deconv2d filter_size output_channels stride padding activation_fn b_value s_value bn trainable self =
     (let c = (count self)\<lparr>deconv := deconv (count self) + 1\<rparr>;
          scope = ''deconv_'' @ str_int (deconv c)
      in self\<lparr>count := c,
              input := Layer scope
                (Deconv2d filter_size output_channels stride padding activation_fn b_value s_value bn
                   trainable)
                (input self)\<rparr>)"




text \<open>
  \<open>avgpool\<close> increments \<open>count['ap']\<close> and builds its scope name from
  \<open>count['mp']\<close>:
  \<^verbatim>\<open>self.count['ap'] += 1\<close>,
  \<^verbatim>\<open>scope = 'avgpool_' + str(self.count['mp'])\<close>.
\<close>

definition avgpool :: "int \<Rightarrow> int option \<Rightarrow> bool \<Rightarrow> layers \<Rightarrow> layers" where
  "avgpool k s globe self =
     (let c = (count self)\<lparr>ap := ap (count self) + 1\<rparr>;
          scope = ''avgpool_'' @ str_int (mp c)
      in self\<lparr>count := c, input := Layer scope (Avgpool k s globe) (input self)\<rparr>)"



text \<open>
  \<open>convnet\<close> and \<open>deconvnet\<close>: a list left as \<open>None\<close> is filled with \<open>depth\<close>
  copies of the default (\<open>np.ones\<close> and \<open>np.zeros\<close> give floats), the seven assertions
  follow in the order of the source, and the loop runs over \<open>range(depth)\<close>. The
  result is the exception that ended the call, if any, and the builder after the call.
\<close>

definition convnet ::
  "int list \<Rightarrow> int list \<Rightarrow> rat list option \<Rightarrow> string list option \<Rightarrow> string option list option \<Rightarrow>
     rat option list option \<Rightarrow> rat option list option \<Rightarrow> bool list option \<Rightarrow> bool \<Rightarrow>
     layers \<Rightarrow> error option \<times> layers" where
  "convnet filter_size output_channels stride padding activation_fn b_value s_value bn trainable self =
     (let depth = length filter_size;
          stride = (case stride of None \<Rightarrow> replicate depth 1 | Some xs \<Rightarrow> xs);
          padding = (case padding of None \<Rightarrow> replicate depth ''SAME'' | Some xs \<Rightarrow> xs);
          activation_fn =
            (case activation_fn of None \<Rightarrow> replicate depth (Some ''relu'') | Some xs \<Rightarrow> xs);
          b_value = (case b_value of None \<Rightarrow> replicate depth (Some 0) | Some xs \<Rightarrow> xs);
          s_value = (case s_value of None \<Rightarrow> replicate depth (Some 1) | Some xs \<Rightarrow> xs);
          bn = (case bn of None \<Rightarrow> replicate depth True | Some xs \<Rightarrow> xs)
      in if length output_channels \<noteq> depth then (Some AssertionError, self)
         else if length stride \<noteq> depth then (Some AssertionError, self)
         else if length padding \<noteq> depth then (Some AssertionError, self)
         else if length activation_fn \<noteq> depth then (Some AssertionError, self)
         else if length b_value \<noteq> depth then (Some AssertionError, self)
         else if length s_value \<noteq> depth then (Some AssertionError, self)
         else if length bn \<noteq> depth then (Some AssertionError, self)
         else (None,
               foldl
                 (\<lambda>self l. conv2d (filter_size ! l) (output_channels ! l) (stride ! l) (padding ! l)
                    (bn ! l) (activation_fn ! l) (b_value ! l) (s_value ! l) trainable self)
                 self [0 ..< depth]))"

definition deconvnet ::
  "int list \<Rightarrow> int list \<Rightarrow> rat list option \<Rightarrow> string list option \<Rightarrow> string option list option \<Rightarrow>
     rat option list option \<Rightarrow> rat option list option \<Rightarrow> bool list option \<Rightarrow> bool \<Rightarrow>
     layers \<Rightarrow> error option \<times> layers" where
  "deconvnet filter_sizes output_channels strides padding activation_fn b_value s_value bn trainable self =
     (let depth = length filter_sizes;
          strides = (case strides of None \<Rightarrow> replicate depth 1 | Some xs \<Rightarrow> xs);
          padding = (case padding of None \<Rightarrow> replicate depth ''SAME'' | Some xs \<Rightarrow> xs);
          activation_fn =
            (case activation_fn of None \<Rightarrow> replicate depth (Some ''relu'') | Some xs \<Rightarrow> xs);
          b_value = (case b_value of None \<Rightarrow> replicate depth (Some 0) | Some xs \<Rightarrow> xs);
          s_value = (case s_value of None \<Rightarrow> replicate depth (Some 1) | Some xs \<Rightarrow> xs);
          bn = (case bn of None \<Rightarrow> replicate depth True | Some xs \<Rightarrow> xs)
      in if length output_channels \<noteq> depth then (Some AssertionError, self)
         else if length strides \<noteq> depth then (Some AssertionError, self)
         else if length padding \<noteq> depth then (Some AssertionError, self)
         else if length activation_fn \<noteq> depth then (Some AssertionError, self)
         else if length b_value \<noteq> depth then (Some AssertionError, self)
         else if length s_value \<noteq> depth then (Some AssertionError, self)
         else if length bn \<noteq> depth then (Some AssertionError, self)
         else (None,
               foldl
                 (\<lambda>self l. deconv2d (filter_sizes ! l) (output_channels ! l) (strides ! l) (padding ! l)
                    (activation_fn ! l) (b_value ! l) (s_value ! l) (bn ! l) trainable self)
                 self [0 ..< depth]))"

text \<open>
  The layers of a tensor with their scope names, first built first, and the arguments
  of a list after the defaults are filled in.
\<close>

fun chain :: "tensor \<Rightarrow> (string \<times> layer_op) list" where
  "chain (Given x) = []"
| "chain (Layer scope op t) = chain t @ [(scope, op)]"

definition or_default :: "'a list option \<Rightarrow> nat \<Rightarrow> 'a \<Rightarrow> 'a list" where
  "or_default xs depth x = (case xs of None \<Rightarrow> replicate depth x | Some ys \<Rightarrow> ys)"

text \<open>The layer that one call of \<open>conv2d\<close> builds from its arguments.\<close>

definition conv2d_op ::
  "int \<Rightarrow> int \<Rightarrow> rat \<Rightarrow> string \<Rightarrow> bool \<Rightarrow> string option \<Rightarrow> rat option \<Rightarrow> rat option \<Rightarrow> bool \<Rightarrow>
     layer_op" where
  "conv2d_op filter_size output_channels stride padding bn activation_fn b_value s_value trainable =
     (if filter_size = 0
      then Conv2d InputWidth output_channels stride ''VALID'' bn activation_fn b_value s_value trainable
      else Conv2d (Size filter_size) output_channels stride padding bn activation_fn b_value s_value
             trainable)"











section \<open>Properties of the batching methods\<close>

lemma img_norm_255:
  "img_norm x 255 = Inr (map (map (img_norm_elem (round_binary64 (1 / 255)))) x)"
  by (simp add: img_norm_def int_truediv_def)


lemma next_train_batch_within:
  assumes "index_in_train_epoch d + b \<le> num_train_images d"
  shows "next_train_batch sh b d =
           (batch_at (index_in_train_epoch d) b d 0,
            d\<lparr>index_in_train_epoch := index_in_train_epoch d + b\<rparr>)"
  using assms
  by (simp add: next_train_batch_def train_return_def img_norm_255 batch_at_def Let_def)

lemma next_train_batch_rollover:
  assumes wf: "num_train_images d = int (length (train_images d))"
              "length (train_labels d) = length (train_images d)"
    and perm: "set (sh [0 ..< length (train_images d)]) = {0 ..< length (train_images d)}"
    and over: "index_in_train_epoch d + b > num_train_images d"
  shows "snd (next_train_batch sh b d) =
           d\<lparr>train_epochs_completed := train_epochs_completed d + 1,
             train_images := map (\<lambda>i. train_images d ! i) (sh [0 ..< length (train_images d)]),
             train_labels := map (\<lambda>i. train_labels d ! i) (sh [0 ..< length (train_images d)]),
             index_in_train_epoch := b\<rparr>"
proof -
  have ok: "list_all (\<lambda>i. i < length (train_images d)) (sh [0 ..< length (train_images d)])"
    using perm by (simp add: list_all_iff)
  show ?thesis
    using over ok wf
    by (simp add: next_train_batch_def np_take_def np_arange_def train_return_def img_norm_255 Let_def)
qed




text \<open>
  C2. When the cursor plus the requested size exceeds the partition size,
  \<open>next_valid_batch\<close> and \<open>next_test_batch\<close> return the batch size 1 and advance
  their cursor by 1. In every case the call succeeds, its third result is the new
  cursor and its fourth the batch size \<open>b\<close> it used, the amount by which the cursor
  moved; no other field of the object changes.
\<close>

theorem next_valid_test_batch_clamped:
  "(index_in_valid_epoch d + n > num_valid_images d \<longrightarrow>
      (\<exists>labels imgs. next_valid_batch n d =
         (Inr (labels, imgs, index_in_valid_epoch d + 1, 1),
          d\<lparr>index_in_valid_epoch := index_in_valid_epoch d + 1\<rparr>))) \<and>
   (index_in_test_epoch d + n > num_test_images d \<longrightarrow>
      (\<exists>labels imgs. next_test_batch n d =
         (Inr (labels, imgs, index_in_test_epoch d + 1, 1),
          d\<lparr>index_in_test_epoch := index_in_test_epoch d + 1\<rparr>))) \<and>
   (\<exists>labels imgs b. next_valid_batch n d =
         (Inr (labels, imgs, index_in_valid_epoch d + b, b),
          d\<lparr>index_in_valid_epoch := index_in_valid_epoch d + b\<rparr>)) \<and>
   (\<exists>labels imgs b. next_test_batch n d =
         (Inr (labels, imgs, index_in_test_epoch d + b, b),
          d\<lparr>index_in_test_epoch := index_in_test_epoch d + b\<rparr>))"
  by (simp add: next_valid_batch_def next_test_batch_def img_norm_255 Let_def)

theorem next_valid_test_batch_clamped_witness:
  "index_in_valid_epoch demo_data + 2 > num_valid_images demo_data \<and>
   index_in_test_epoch demo_data + 2 > num_test_images demo_data \<and>
   (\<exists>labels imgs. next_valid_batch 2 demo_data =
      (Inr (labels, imgs, 3, 1), demo_data\<lparr>index_in_valid_epoch := 3\<rparr>)) \<and>
   (\<exists>labels imgs. next_test_batch 2 demo_data =
      (Inr (labels, imgs, 2, 1), demo_data\<lparr>index_in_test_epoch := 2\<rparr>))"
proof -
  have v: "index_in_valid_epoch demo_data = 2" "num_valid_images demo_data = 3"
    and t: "index_in_test_epoch demo_data = 1" "num_test_images demo_data = 2"
    by (simp_all add: demo_data_def)
  show ?thesis
    using next_valid_test_batch_clamped [of demo_data 2] by (simp add: v t)
qed

lemma next_train_batch_rollover_batch:
  assumes wf: "num_train_images d = int (length (train_images d))"
              "length (train_labels d) = length (train_images d)"
    and perm: "set (sh [0 ..< length (train_images d)]) = {0 ..< length (train_images d)}"
    and over: "index_in_train_epoch d + b > num_train_images d"
    and b: "b \<le> num_train_images d"
  shows "fst (next_train_batch sh b d) = batch_at 0 b (snd (next_train_batch sh b d)) 0"
proof -
  have ok: "list_all (\<lambda>i. i < length (train_images d)) (sh [0 ..< length (train_images d)])"
    using perm by (simp add: list_all_iff)
  show ?thesis
    using over ok wf b
    by (simp add: next_train_batch_def np_take_def np_arange_def train_return_def img_norm_255
        batch_at_def Let_def)
qed




text \<open>
  C4, as amended. For a batch size \<open>n \<ge> 0\<close>: a call of \<open>next_train_batch\<close> whose new
  cursor does not exceed the partition size moves the cursor forward by \<open>n\<close> and
  changes nothing else; a call whose new cursor would exceed it increments
  \<open>train_epochs_completed\<close> by one, permutes images and labels by one permutation and
  sets the cursor to \<open>n\<close>, and the batch it returns (when \<open>n\<close> is at most the partition
  size) starts at position 0. \<open>next_valid_batch\<close> and \<open>next_test_batch\<close> only ever
  add to their cursor, \<open>n\<close> or 1: it never decreases and is never reset.
\<close>

theorem cursor_advance_and_reset:
  assumes wf: "num_train_images d = int (length (train_images d))"
              "length (train_labels d) = length (train_images d)"
    and perm: "set (sh [0 ..< length (train_images d)]) = {0 ..< length (train_images d)}"
    and n: "0 \<le> n"
  shows "(index_in_train_epoch d + n \<le> num_train_images d \<longrightarrow>
            snd (next_train_batch sh n d) =
              d\<lparr>index_in_train_epoch := index_in_train_epoch d + n\<rparr>) \<and>
         (index_in_train_epoch d + n > num_train_images d \<longrightarrow>
            snd (next_train_batch sh n d) =
              d\<lparr>train_epochs_completed := train_epochs_completed d + 1,
                train_images := map (\<lambda>i. train_images d ! i) (sh [0 ..< length (train_images d)]),
                train_labels := map (\<lambda>i. train_labels d ! i) (sh [0 ..< length (train_images d)]),
                index_in_train_epoch := n\<rparr>) \<and>
         (index_in_train_epoch d + n > num_train_images d \<and> n \<le> num_train_images d \<longrightarrow>
            fst (next_train_batch sh n d) = batch_at 0 n (snd (next_train_batch sh n d)) 0) \<and>
         snd (next_valid_batch n d) =
           d\<lparr>index_in_valid_epoch := index_in_valid_epoch d +
              (if index_in_valid_epoch d + n > num_valid_images d then 1 else n)\<rparr> \<and>
         index_in_valid_epoch d \<le> index_in_valid_epoch (snd (next_valid_batch n d)) \<and>
         snd (next_test_batch n d) =
           d\<lparr>index_in_test_epoch := index_in_test_epoch d +
              (if index_in_test_epoch d + n > num_test_images d then 1 else n)\<rparr> \<and>
         index_in_test_epoch d \<le> index_in_test_epoch (snd (next_test_batch n d))"
proof -
  have t1: "index_in_train_epoch d + n \<le> num_train_images d \<longrightarrow>
            snd (next_train_batch sh n d) = d\<lparr>index_in_train_epoch := index_in_train_epoch d + n\<rparr>"
    by (simp add: next_train_batch_within)
  have t2: "index_in_train_epoch d + n > num_train_images d \<longrightarrow>
            snd (next_train_batch sh n d) =
              d\<lparr>train_epochs_completed := train_epochs_completed d + 1,
                train_images := map (\<lambda>i. train_images d ! i) (sh [0 ..< length (train_images d)]),
                train_labels := map (\<lambda>i. train_labels d ! i) (sh [0 ..< length (train_images d)]),
                index_in_train_epoch := n\<rparr>"
    using next_train_batch_rollover [where d = d and sh = sh and b = n, OF wf perm] by blast
  have t3: "index_in_train_epoch d + n > num_train_images d \<and> n \<le> num_train_images d \<longrightarrow>
            fst (next_train_batch sh n d) = batch_at 0 n (snd (next_train_batch sh n d)) 0"
    using next_train_batch_rollover_batch [where d = d and sh = sh and b = n, OF wf perm] by blast
  have v: "snd (next_valid_batch n d) =
           d\<lparr>index_in_valid_epoch := index_in_valid_epoch d +
              (if index_in_valid_epoch d + n > num_valid_images d then 1 else n)\<rparr>"
    by (simp add: next_valid_batch_def img_norm_255 Let_def)
  have t: "snd (next_test_batch n d) =
           d\<lparr>index_in_test_epoch := index_in_test_epoch d +
              (if index_in_test_epoch d + n > num_test_images d then 1 else n)\<rparr>"
    by (simp add: next_test_batch_def img_norm_255 Let_def)
  have vm: "index_in_valid_epoch d \<le> index_in_valid_epoch (snd (next_valid_batch n d))"
    unfolding v using n by simp
  have tm: "index_in_test_epoch d \<le> index_in_test_epoch (snd (next_test_batch n d))"
    unfolding t using n by simp
  show ?thesis using t1 t2 t3 v t vm tm by blast
qed

theorem cursor_advance_and_reset_witness:
  "num_train_images demo_data = int (length (train_images demo_data)) \<and>
   length (train_labels demo_data) = length (train_images demo_data) \<and>
   set (rev [0 ..< length (train_images demo_data)]) = {0 ..< length (train_images demo_data)} \<and>
   (0::int) \<le> 2 \<and>
   index_in_train_epoch demo_data + 2 \<le> num_train_images demo_data \<and>
   snd (next_train_batch rev 2 demo_data) = demo_data\<lparr>index_in_train_epoch := 2\<rparr> \<and>
   index_in_train_epoch (demo_data\<lparr>index_in_train_epoch := 2\<rparr>) + 2 > num_train_images demo_data \<and>
   snd (next_train_batch rev 2 (demo_data\<lparr>index_in_train_epoch := 2\<rparr>)) =
     demo_data\<lparr>train_epochs_completed := 1, train_images := [[102], [51], [0]],
       train_labels := [30, 20, 10], index_in_train_epoch := 2\<rparr> \<and>
   index_in_valid_epoch (snd (next_valid_batch 2 demo_data)) = 3 \<and>
   index_in_test_epoch (snd (next_test_batch 2 demo_data)) = 2"
proof -
  let ?d2 = "demo_data\<lparr>index_in_train_epoch := 2\<rparr>"
  have h: "num_train_images demo_data = int (length (train_images demo_data))"
    "length (train_labels demo_data) = length (train_images demo_data)"
    "set (rev [0 ..< length (train_images demo_data)]) = {0 ..< length (train_images demo_data)}"
    "(0::int) \<le> 2"
    by (simp_all add: demo_data_def del: upt_Suc)
  have h2: "num_train_images ?d2 = int (length (train_images ?d2))"
    "length (train_labels ?d2) = length (train_images ?d2)"
    "set (rev [0 ..< length (train_images ?d2)]) = {0 ..< length (train_images ?d2)}"
    using h by simp_all
  have v: "index_in_train_epoch demo_data = 0" "num_train_images demo_data = 3"
    "index_in_valid_epoch demo_data = 2" "num_valid_images demo_data = 3"
    "index_in_test_epoch demo_data = 1" "num_test_images demo_data = 2"
    "train_epochs_completed demo_data = 0" "train_images demo_data = [[0], [51], [102]]"
    "train_labels demo_data = [10, 20, 30]"
    by (simp_all add: demo_data_def)
  have p: "rev [0 ..< 3] = [2, 1, 0::nat]"
    by (simp add: upt_conv_Cons)
  show ?thesis
    using cursor_advance_and_reset [where d = demo_data and sh = rev and n = 2, OF h]
      cursor_advance_and_reset [where d = ?d2 and sh = rev and n = 2, OF h2 h(4)] h
    by (simp add: v p)
qed

theorem cursor_advance_and_reset_counterexample:
  "num_valid_images demo_data = 3 \<and>
   index_in_valid_epoch demo_data = 2 \<and>
   next_valid_batch 2 demo_data =
     (Inr ([6], [[- (5404319552844595 / 9007199254740992)]], 3, 1),
      demo_data\<lparr>index_in_valid_epoch := 3\<rparr>) \<and>
   next_valid_batch 2 (demo_data\<lparr>index_in_valid_epoch := 3\<rparr>) =
     (Inr ([], [], 4, 1), demo_data\<lparr>index_in_valid_epoch := 4\<rparr>) \<and>
   next_valid_batch 2 (demo_data\<lparr>index_in_valid_epoch := 4\<rparr>) =
     (Inr ([], [], 5, 1), demo_data\<lparr>index_in_valid_epoch := 5\<rparr>)"
  by code_simp

section \<open>Properties of the binary64 rounding and of the image normalisation\<close>

lemma pow2_powi: "pow2 k = 2 powi k"
  unfolding pow2_def power_int_def by (simp add: inverse_eq_divide power_divide)

lemma pow2_pos: "0 < pow2 k"
  by (simp add: pow2_powi)

lemma pow2_add: "pow2 (a + b) = pow2 a * pow2 b"
  by (simp add: pow2_powi power_int_add)

lemma pow2_mono: "a \<le> b \<Longrightarrow> pow2 a \<le> pow2 b"
  by (simp add: pow2_powi power_int_increasing)

lemma pow2_less_imp: "pow2 a < pow2 b \<Longrightarrow> a < b"
  using pow2_mono [of b a] by (cases "a < b") simp_all

lemma pow2_nat: "0 \<le> k \<Longrightarrow> pow2 k = of_int (2 ^ nat k)"
  by (simp add: pow2_def)

lemma round_half_even_le: "x \<le> of_int n \<Longrightarrow> round_half_even x \<le> n"
proof -
  assume le: "x \<le> of_int n"
  show ?thesis
  proof (cases "x = of_int n")
    case True
    then show ?thesis by (simp add: round_half_even_def)
  next
    case False
    then have "x < of_int n" using le by simp
    then have "\<lfloor>x\<rfloor> < n" by (simp add: floor_less_iff)
    then show ?thesis by (simp add: round_half_even_def Let_def)
  qed
qed

lemma round_half_even_ge: "of_int n \<le> x \<Longrightarrow> n \<le> round_half_even x"
proof -
  assume "of_int n \<le> x"
  then have "n \<le> \<lfloor>x\<rfloor>" by (simp add: le_floor_iff)
  then show ?thesis by (simp add: round_half_even_def Let_def)
qed

lemma round_half_even_cases:
  obtains "round_half_even x = \<lfloor>x\<rfloor>" "x - of_int \<lfloor>x\<rfloor> \<le> 1 / 2"
  | "round_half_even x = \<lfloor>x\<rfloor> + 1" "1 / 2 \<le> x - of_int \<lfloor>x\<rfloor>"
proof (cases "x - of_int \<lfloor>x\<rfloor> < 1 / 2")
  case True
  then have "round_half_even x = \<lfloor>x\<rfloor>" by (simp add: round_half_even_def Let_def)
  then show ?thesis using True that(1) by simp
next
  case False
  show ?thesis
  proof (cases "1 / 2 < x - of_int \<lfloor>x\<rfloor>")
    case True
    then have "round_half_even x = \<lfloor>x\<rfloor> + 1" using False by (simp add: round_half_even_def Let_def)
    then show ?thesis using True that(2) by simp
  next
    case nt: False
    then have eq: "x - of_int \<lfloor>x\<rfloor> = 1 / 2" using False by simp
    show ?thesis
    proof (cases "even \<lfloor>x\<rfloor>")
      case True
      then have "round_half_even x = \<lfloor>x\<rfloor>" using False nt by (simp add: round_half_even_def Let_def)
      then show ?thesis using eq that(1) by simp
    next
      case odd: False
      then have "round_half_even x = \<lfloor>x\<rfloor> + 1" using False nt by (simp add: round_half_even_def Let_def)
      then show ?thesis using eq that(2) by simp
    qed
  qed
qed

lemma round_half_even_err: "\<bar>of_int (round_half_even x) - x\<bar> \<le> 1 / 2"
proof -
  have a: "of_int \<lfloor>x\<rfloor> \<le> x" and b: "x < of_int \<lfloor>x\<rfloor> + 1"
    by linarith+
  show ?thesis
  proof (cases x rule: round_half_even_cases)
    case 1
    then show ?thesis using a by simp
  next
    case 2
    then show ?thesis using b by simp
  qed
qed


lemma ilog2_bounds:
  assumes "0 < q"
  shows "pow2 (ilog2 q) \<le> q" and "q < pow2 (ilog2 q + 1)"
proof -
  have "pow2 (ilog2 q) \<le> q \<and> q < pow2 (ilog2 q + 1)"
  proof (cases "1 \<le> q")
    case True
    define n where "n = \<lfloor>q\<rfloor>"
    have n: "0 < n" using True unfolding n_def by simp
    have fl: "of_int n \<le> q" "q < of_int n + 1" unfolding n_def by linarith+
    have L: "1 \<le> bitlen n" using n bitlen_eq_zero_iff [of n] bitlen_nonneg [of n] by linarith
    have b: "2 ^ nat (bitlen n - 1) \<le> n" "n < 2 ^ nat (bitlen n)"
      using bitlen_bounds [OF n] by simp_all
    have e: "ilog2 q = bitlen n - 1" using True by (simp add: ilog2_def n_def)
    have lo: "pow2 (bitlen n - 1) = of_int (2 ^ nat (bitlen n - 1))"
      using L by (simp add: pow2_nat)
    have hi: "pow2 (bitlen n) = of_int (2 ^ nat (bitlen n))"
      using L by (simp add: pow2_nat)
    have "pow2 (bitlen n - 1) \<le> of_int n"
      unfolding lo using b(1) by (simp only: of_int_le_iff)
    moreover have "(of_int n + 1 :: rat) \<le> pow2 (bitlen n)"
    proof -
      have "n + 1 \<le> 2 ^ nat (bitlen n)" using b(2) by simp
      then have "(of_int (n + 1) :: rat) \<le> of_int (2 ^ nat (bitlen n))"
        by (simp only: of_int_le_iff)
      then show ?thesis unfolding hi by simp
    qed
    ultimately show ?thesis unfolding e using fl by simp
  next
    case False
    then have q1: "q < 1" by simp
    define m where "m = \<lceil>1 / q\<rceil>"
    define n where "n = m - 1"
    have iq: "1 < 1 / q" using assms q1 by simp
    have cl: "1 / q \<le> of_int m" "of_int m - 1 < 1 / q" unfolding m_def by linarith+
    have "1 < (of_int m :: rat)" using iq cl(1) by linarith
    then have m: "1 < m" by simp
    then have n: "0 < n" unfolding n_def by simp
    have L: "1 \<le> bitlen n" using n bitlen_eq_zero_iff [of n] bitlen_nonneg [of n] by linarith
    have b: "2 ^ nat (bitlen n - 1) \<le> n" "n < 2 ^ nat (bitlen n)"
      using bitlen_bounds [OF n] by simp_all
    have e: "ilog2 q = - bitlen n" using False by (simp add: ilog2_def n_def m_def)
    have lo: "pow2 (- bitlen n) = 1 / of_int (2 ^ nat (bitlen n))"
      using L by (simp add: pow2_def)
    have hi: "pow2 (- bitlen n + 1) = 1 / of_int (2 ^ nat (bitlen n - 1))"
    proof (cases "bitlen n = 1")
      case True
      then show ?thesis by (simp add: pow2_def)
    next
      case False
      then have "- bitlen n + 1 < 0" using L by simp
      moreover have "nat (- (- bitlen n + 1)) = nat (bitlen n - 1)" by simp
      ultimately show ?thesis by (simp add: pow2_def)
    qed
    have up: "1 / q \<le> of_int (2 ^ nat (bitlen n))"
    proof -
      have "m \<le> 2 ^ nat (bitlen n)" using b(2) unfolding n_def by simp
      then have "(of_int m :: rat) \<le> of_int (2 ^ nat (bitlen n))" by (simp only: of_int_le_iff)
      then show ?thesis using cl(1) by linarith
    qed
    have dn: "of_int (2 ^ nat (bitlen n - 1)) < 1 / q"
    proof -
      have "(of_int (2 ^ nat (bitlen n - 1)) :: rat) \<le> of_int n" using b(1) by (simp only: of_int_le_iff)
      then show ?thesis using cl(2) unfolding n_def by simp
    qed
    have p1: "(0::rat) < of_int (2 ^ nat (bitlen n))" by simp
    have p2: "(0::rat) < of_int (2 ^ nat (bitlen n - 1))" by simp
    have "1 / of_int (2 ^ nat (bitlen n)) \<le> q"
      using up assms p1 by (simp add: field_simps)
    moreover have "q < 1 / of_int (2 ^ nat (bitlen n - 1))"
      using dn assms p2 by (simp add: field_simps)
    ultimately show ?thesis unfolding e lo hi by simp
  qed
  then show "pow2 (ilog2 q) \<le> q" and "q < pow2 (ilog2 q + 1)" by simp_all
qed


lemma pow2_one: "pow2 1 = 2"
  by (simp add: pow2_def)

lemma pow2_strict: "pow2 j < pow2 (j + 1)"
proof -
  have "pow2 (j + 1) = pow2 j * pow2 1" by (rule pow2_add)
  then show ?thesis using pow2_pos [of j] by (simp add: pow2_one)
qed

lemma ilog2_le:
  assumes "q \<noteq> 0" "\<bar>q\<bar> \<le> pow2 j"
  shows "ilog2 \<bar>q\<bar> \<le> j"
proof (rule ccontr)
  assume "\<not> ilog2 \<bar>q\<bar> \<le> j"
  then have "j + 1 \<le> ilog2 \<bar>q\<bar>" by simp
  then have "pow2 (j + 1) \<le> pow2 (ilog2 \<bar>q\<bar>)" by (rule pow2_mono)
  also have "\<dots> \<le> \<bar>q\<bar>" using assms(1) by (simp add: ilog2_bounds(1))
  finally show False using assms(2) pow2_strict [of j] by linarith
qed

lemma round_binary64_unfold:
  assumes "q \<noteq> 0"
  shows "round_binary64 q =
           of_int (round_half_even (q / pow2 (max (ilog2 \<bar>q\<bar>) (- 1022) - 52))) *
           pow2 (max (ilog2 \<bar>q\<bar>) (- 1022) - 52)"
  using assms by (simp add: round_binary64_def Let_def)

lemma round_binary64_bound:
  assumes "- 1074 \<le> j" "\<bar>q\<bar> \<le> pow2 j"
  shows "\<bar>round_binary64 q\<bar> \<le> pow2 j"
proof (cases "q = 0")
  case True
  then show ?thesis using pow2_pos [of j] by (simp add: round_binary64_def)
next
  case False
  define k where "k = max (ilog2 \<bar>q\<bar>) (- 1022) - 52"
  define N :: int where "N = 2 ^ nat (j - k)"
  have kj: "k \<le> j" using ilog2_le [OF False assms(2)] assms(1) unfolding k_def by simp
  have pk: "0 < pow2 k" by (rule pow2_pos)
  have pj: "pow2 j = of_int N * pow2 k"
  proof -
    have "pow2 j = pow2 ((j - k) + k)" by simp
    also have "\<dots> = pow2 (j - k) * pow2 k" by (rule pow2_add)
    also have "pow2 (j - k) = of_int N" using kj unfolding N_def by (simp add: pow2_nat)
    finally show ?thesis .
  qed
  have q: "- (of_int N * pow2 k) \<le> q" "q \<le> of_int N * pow2 k"
    using assms(2) unfolding pj by linarith+
  have "q / pow2 k \<le> of_int N" using q(2) pk by (simp add: field_simps)
  then have up: "round_half_even (q / pow2 k) \<le> N" by (rule round_half_even_le)
  have "of_int (- N) \<le> q / pow2 k" using q(1) pk by (simp add: field_simps)
  then have lo: "- N \<le> round_half_even (q / pow2 k)" by (rule round_half_even_ge)
  have "\<bar>round_half_even (q / pow2 k)\<bar> \<le> N" using up lo by simp
  then have "\<bar>(of_int (round_half_even (q / pow2 k)) :: rat)\<bar> \<le> of_int N"
    by (metis of_int_abs of_int_le_iff)
  then have "\<bar>of_int (round_half_even (q / pow2 k)) * pow2 k\<bar> \<le> of_int N * pow2 k"
    using pk by (simp add: abs_mult)
  then show ?thesis
    unfolding round_binary64_unfold [OF False] k_def [symmetric] pj .
qed

lemma round_binary64_nonneg:
  assumes "0 \<le> q"
  shows "0 \<le> round_binary64 q"
proof (cases "q = 0")
  case True
  then show ?thesis by (simp add: round_binary64_def)
next
  case False
  define k where "k = max (ilog2 \<bar>q\<bar>) (- 1022) - 52"
  have pk: "0 < pow2 k" by (rule pow2_pos)
  have "of_int 0 \<le> q / pow2 k" using assms pk by simp
  then have "0 \<le> round_half_even (q / pow2 k)" by (rule round_half_even_ge)
  then have "0 \<le> (of_int (round_half_even (q / pow2 k)) :: rat) * pow2 k"
    using pk by simp
  then show ?thesis
    unfolding round_binary64_unfold [OF False] k_def [symmetric] .
qed

lemma round_binary64_err:
  assumes "- 1022 \<le> j" "\<bar>q\<bar> \<le> pow2 j"
  shows "\<bar>round_binary64 q - q\<bar> \<le> pow2 (j - 53)"
proof (cases "q = 0")
  case True
  then show ?thesis using pow2_pos [of "j - 53"] by (simp add: round_binary64_def)
next
  case False
  define k where "k = max (ilog2 \<bar>q\<bar>) (- 1022) - 52"
  define r where "r = round_half_even (q / pow2 k)"
  have kj: "k - 1 \<le> j - 53" using ilog2_le [OF False assms(2)] assms(1) unfolding k_def by simp
  have pk: "0 < pow2 k" by (rule pow2_pos)
  have "of_int r * pow2 k - q = (of_int r - q / pow2 k) * pow2 k"
    using pk by (simp add: field_simps)
  then have "\<bar>of_int r * pow2 k - q\<bar> = \<bar>of_int r - q / pow2 k\<bar> * pow2 k"
    using pk by (simp add: abs_mult)
  also have "\<dots> \<le> (1 / 2) * pow2 k"
    using round_half_even_err [of "q / pow2 k"] pk unfolding r_def
    by (simp only: mult_right_mono less_imp_le)
  also have "(1 / 2) * pow2 k = pow2 (k - 1)"
  proof -
    have "pow2 k = pow2 ((k - 1) + 1)" by simp
    also have "\<dots> = pow2 (k - 1) * pow2 1" by (rule pow2_add)
    finally show ?thesis by (simp add: pow2_one)
  qed
  also have "\<dots> \<le> pow2 (j - 53)" using kj by (rule pow2_mono)
  finally show ?thesis
    unfolding round_binary64_unfold [OF False] k_def [symmetric] r_def [symmetric] .
qed


lemma recip_255: "round_binary64 (1 / 255) = 282578800148737 / 72057594037927936"
  by code_simp

lemma pow2_double: "pow2 j + pow2 j = pow2 (j + 1)"
  using pow2_add [of j 1] by (simp add: pow2_one)

lemma pow2_0: "pow2 0 = 1" and pow2_m1: "pow2 (- 1) = 1 / 2"
  by (simp_all add: pow2_def)

lemma img_norm_elem_bounds:
  assumes "0 \<le> x" "x \<le> 255"
  shows "- 1 \<le> img_norm_elem (round_binary64 (1 / 255)) x"
    and "img_norm_elem (round_binary64 (1 / 255)) x \<le> 1"
    and "\<bar>img_norm_elem (round_binary64 (1 / 255)) x - (x / 255 - 1 / 2) * 2\<bar> \<le> 1 / 2 ^ 50"
proof -
  define c :: rat where "c = 282578800148737 / 72057594037927936"
  define p where "p = round_binary64 (x * c)"
  define d where "d = round_binary64 (p - 1 / 2)"
  define y where "y = round_binary64 (d * 2)"
  have y: "img_norm_elem (round_binary64 (1 / 255)) x = y"
    by (simp add: img_norm_elem_def float_mul_def float_sub_def recip_255 y_def d_def p_def c_def)
  have xc: "0 \<le> x * c" "x * c \<le> 1"
    using assms by (simp_all add: c_def)
  have xe: "\<bar>x * c - x / 255\<bar> \<le> 1 / 2 ^ 56"
  proof -
    have "x * c - x / 255 = - (x / (255 * 2 ^ 56))" by (simp add: c_def)
    then have "\<bar>x * c - x / 255\<bar> = x / (255 * 2 ^ 56)" using assms(1) by simp
    also have "\<dots> \<le> 255 / (255 * 2 ^ 56)" using assms(2) by (simp add: divide_right_mono)
    finally show ?thesis by simp
  qed
  have p0: "0 \<le> p" unfolding p_def using xc(1) by (rule round_binary64_nonneg)
  have n: "pow2 (0 - 53) = 1 / 2 ^ 53" "pow2 (- 1 - 53) = 1 / 2 ^ 54"
    by (simp_all add: pow2_def)
  have a0: "\<bar>x * c\<bar> \<le> pow2 0" using xc by (simp add: pow2_0)
  have p1: "\<bar>p\<bar> \<le> pow2 0"
    unfolding p_def by (rule round_binary64_bound [OF _ a0]) simp
  have pe: "\<bar>p - x * c\<bar> \<le> 1 / 2 ^ 53"
    unfolding p_def n(1) [symmetric] by (rule round_binary64_err [OF _ a0]) simp
  have ph: "\<bar>p - 1 / 2\<bar> \<le> pow2 (- 1)"
  proof -
    have "p \<le> 1" using p1 by (simp add: pow2_0)
    then show ?thesis unfolding pow2_m1 using p0 by linarith
  qed
  have d1: "\<bar>d\<bar> \<le> pow2 (- 1)"
    unfolding d_def by (rule round_binary64_bound [OF _ ph]) simp
  have de: "\<bar>d - (p - 1 / 2)\<bar> \<le> 1 / 2 ^ 54"
    unfolding d_def n(2) [symmetric] by (rule round_binary64_err [OF _ ph]) simp
  have d2: "\<bar>d * 2\<bar> \<le> pow2 0"
  proof -
    have "\<bar>d\<bar> \<le> 1 / 2" using d1 by (simp only: pow2_m1)
    then show ?thesis unfolding pow2_0 by linarith
  qed
  have y1: "\<bar>y\<bar> \<le> pow2 0"
    unfolding y_def by (rule round_binary64_bound [OF _ d2]) simp
  have ye: "\<bar>y - d * 2\<bar> \<le> 1 / 2 ^ 53"
    unfolding y_def n(1) [symmetric] by (rule round_binary64_err [OF _ d2]) simp
  show "- 1 \<le> img_norm_elem (round_binary64 (1 / 255)) x"
    and "img_norm_elem (round_binary64 (1 / 255)) x \<le> 1"
    using y1 unfolding y by (simp_all add: pow2_0)
  have tri: "\<bar>a + b + c + e\<bar> \<le> \<bar>a\<bar> + \<bar>b\<bar> + \<bar>c\<bar> + \<bar>e\<bar>" for a b c e :: rat
  proof -
    have "\<bar>a + b + c + e\<bar> \<le> \<bar>a + b + c\<bar> + \<bar>e\<bar>" by (rule abs_triangle_ineq)
    also have "\<bar>a + b + c\<bar> \<le> \<bar>a + b\<bar> + \<bar>c\<bar>" by (rule abs_triangle_ineq)
    also have "\<bar>a + b\<bar> \<le> \<bar>a\<bar> + \<bar>b\<bar>" by (rule abs_triangle_ineq)
    finally show ?thesis by simp
  qed
  have "y - (x / 255 - 1 / 2) * 2 =
        (y - d * 2) + 2 * (d - (p - 1 / 2)) + 2 * (p - x * c) + 2 * (x * c - x / 255)"
    by (simp add: algebra_simps)
  then have "\<bar>y - (x / 255 - 1 / 2) * 2\<bar> \<le>
        \<bar>y - d * 2\<bar> + \<bar>2 * (d - (p - 1 / 2))\<bar> + \<bar>2 * (p - x * c)\<bar> + \<bar>2 * (x * c - x / 255)\<bar>"
    by (simp only: tri)
  also have "\<dots> = \<bar>y - d * 2\<bar> + 2 * \<bar>d - (p - 1 / 2)\<bar> + 2 * \<bar>p - x * c\<bar> + 2 * \<bar>x * c - x / 255\<bar>"
    by (simp only: abs_mult abs_numeral)
  also have "\<dots> \<le> 1 / 2 ^ 53 + 2 * (1 / 2 ^ 54) + 2 * (1 / 2 ^ 53) + 2 * (1 / 2 ^ 56)"
    by (intro add_mono mult_left_mono ye de pe xe) simp_all
  also have "\<dots> \<le> 1 / 2 ^ 50" by simp
  finally show "\<bar>img_norm_elem (round_binary64 (1 / 255)) x - (x / 255 - 1 / 2) * 2\<bar> \<le> 1 / 2 ^ 50"
    unfolding y .
qed


lemma img_norm_finite:
  assumes "\<bar>x\<bar> \<le> pow2 1024"
  shows "\<bar>float_mul x (round_binary64 (1 / 255))\<bar> \<le> pow2 1017"
    and "\<bar>float_sub (float_mul x (round_binary64 (1 / 255))) (1 / 2)\<bar> \<le> pow2 1018"
    and "\<bar>img_norm_elem (round_binary64 (1 / 255)) x\<bar> \<le> pow2 1019"
proof -
  define c where "c = round_binary64 (1 / 255)"
  have c: "0 \<le> c" "c \<le> pow2 (- 7)"
    unfolding c_def recip_255 by (simp_all add: pow2_def)
  have "\<bar>x * c\<bar> = \<bar>x\<bar> * c" using c(1) by (simp add: abs_mult)
  also have "\<dots> \<le> pow2 1024 * pow2 (- 7)"
    using assms c pow2_pos [of 1024] by (intro mult_mono) simp_all
  also have "\<dots> = pow2 1017" using pow2_add [of 1024 "- 7"] by simp
  finally have a: "\<bar>x * c\<bar> \<le> pow2 1017" .
  have p: "\<bar>float_mul x c\<bar> \<le> pow2 1017"
    unfolding float_mul_def by (rule round_binary64_bound [OF _ a]) simp
  have h: "(1 / 2 :: rat) \<le> pow2 1017"
    using pow2_mono [of "- 1" 1017] by (simp add: pow2_m1)
  have "\<bar>float_mul x c - 1 / 2\<bar> \<le> \<bar>float_mul x c\<bar> + 1 / 2" by linarith
  also have "\<dots> \<le> pow2 1017 + pow2 1017" using p h by linarith
  also have "\<dots> = pow2 1018" using pow2_double [of 1017] by simp
  finally have b: "\<bar>float_mul x c - 1 / 2\<bar> \<le> pow2 1018" .
  have d: "\<bar>float_sub (float_mul x c) (1 / 2)\<bar> \<le> pow2 1018"
    unfolding float_sub_def by (rule round_binary64_bound [OF _ b]) simp
  have "\<bar>float_sub (float_mul x c) (1 / 2) * 2\<bar> \<le> pow2 1018 + pow2 1018"
    using d by linarith
  also have "\<dots> = pow2 1019" using pow2_double [of 1018] by simp
  finally have e: "\<bar>float_sub (float_mul x c) (1 / 2) * 2\<bar> \<le> pow2 1019" .
  have y: "\<bar>img_norm_elem c x\<bar> \<le> pow2 1019"
    unfolding img_norm_elem_def float_mul_def [of "float_sub (round_binary64 (x * c)) (1 / 2)" 2]
    using round_binary64_bound [OF _ e] by (simp add: float_mul_def)
  show "\<bar>float_mul x (round_binary64 (1 / 255))\<bar> \<le> pow2 1017"
    and "\<bar>float_sub (float_mul x (round_binary64 (1 / 255))) (1 / 2)\<bar> \<le> pow2 1018"
    and "\<bar>img_norm_elem (round_binary64 (1 / 255)) x\<bar> \<le> pow2 1019"
    using p d y unfolding c_def by simp_all
qed

text \<open>
  C9. In binary64 arithmetic \<open>img_norm\<close> maps 0 to -1, 255 to 1 and 127.5 to 0, every
  value between 0 and 255 to a value between -1 and 1, and the value it computes is
  within \<open>2 ^ (- 50)\<close> of \<open>(x / 255 - 0.5) * 2\<close>.
\<close>

theorem img_norm_range:
  "img_norm [[0]] 255 = Inr [[- 1]] \<and>
   img_norm [[255]] 255 = Inr [[1]] \<and>
   img_norm [[255 / 2]] 255 = Inr [[0]] \<and>
   (\<forall>x. (\<forall>im \<in> set x. \<forall>p \<in> set im. 0 \<le> p \<and> p \<le> 255) \<longrightarrow>
      (\<exists>y. img_norm x 255 = Inr y \<and> length y = length x \<and>
         (\<forall>i < length x. length (y ! i) = length (x ! i) \<and>
            (\<forall>j < length (x ! i).
               - 1 \<le> y ! i ! j \<and> y ! i ! j \<le> 1 \<and>
               \<bar>y ! i ! j - (x ! i ! j / 255 - 1 / 2) * 2\<bar> \<le> 1 / 2 ^ 50))))"
proof (intro conjI allI impI)
  show "img_norm [[0]] 255 = Inr [[- 1]]" by code_simp
  show "img_norm [[255]] 255 = Inr [[1]]" by code_simp
  show "img_norm [[255 / 2]] 255 = Inr [[0]]" by code_simp
next
  fix x :: "image list"
  assume r: "\<forall>im \<in> set x. \<forall>p \<in> set im. 0 \<le> p \<and> p \<le> 255"
  let ?f = "img_norm_elem (round_binary64 (1 / 255))"
  let ?y = "map (map ?f) x"
  have "length (?y ! i) = length (x ! i) \<and>
        (\<forall>j < length (x ! i).
           - 1 \<le> ?y ! i ! j \<and> ?y ! i ! j \<le> 1 \<and>
           \<bar>?y ! i ! j - (x ! i ! j / 255 - 1 / 2) * 2\<bar> \<le> 1 / 2 ^ 50)" if i: "i < length x" for i
  proof (intro conjI allI impI)
    show "length (?y ! i) = length (x ! i)" using i by simp
    fix j
    assume j: "j < length (x ! i)"
    have "x ! i \<in> set x" using i by simp
    moreover have "x ! i ! j \<in> set (x ! i)" using j by simp
    ultimately have b: "0 \<le> x ! i ! j" "x ! i ! j \<le> 255" using r by blast+
    have e: "?y ! i ! j = ?f (x ! i ! j)" using i j by simp
    show "- 1 \<le> ?y ! i ! j" "?y ! i ! j \<le> 1"
      "\<bar>?y ! i ! j - (x ! i ! j / 255 - 1 / 2) * 2\<bar> \<le> 1 / 2 ^ 50"
      unfolding e using img_norm_elem_bounds [OF b] by simp_all
  qed
  then show "\<exists>y. img_norm x 255 = Inr y \<and> length y = length x \<and>
         (\<forall>i < length x. length (y ! i) = length (x ! i) \<and>
            (\<forall>j < length (x ! i).
               - 1 \<le> y ! i ! j \<and> y ! i ! j \<le> 1 \<and>
               \<bar>y ! i ! j - (x ! i ! j / 255 - 1 / 2) * 2\<bar> \<le> 1 / 2 ^ 50))"
    unfolding img_norm_255 by (intro exI [of _ ?y]) simp
qed

theorem img_norm_range_witness:
  "(0::rat) \<le> 51 \<and> (51::rat) \<le> 255 \<and>
   img_norm [[51]] 255 = Inr [[- (5404319552844595 / 9007199254740992)]] \<and>
   - 1 \<le> - (5404319552844595 / 9007199254740992 :: rat) \<and>
   \<bar>- (5404319552844595 / 9007199254740992) - (51 / 255 - 1 / 2) * 2 :: rat\<bar> \<le> 1 / 2 ^ 50"
proof -
  have e: "img_norm [[51]] 255 = Inr [[- (5404319552844595 / 9007199254740992)]]"
    by code_simp
  have "\<forall>im \<in> set [[51 :: rat]]. \<forall>p \<in> set im. 0 \<le> p \<and> p \<le> 255" by simp
  then obtain y where y: "img_norm [[51]] 255 = Inr y"
    "\<forall>i < length [[51 :: rat]]. length (y ! i) = length ([[51 :: rat]] ! i) \<and>
       (\<forall>j < length ([[51 :: rat]] ! i).
          - 1 \<le> y ! i ! j \<and> y ! i ! j \<le> 1 \<and>
          \<bar>y ! i ! j - ([[51]] ! i ! j / 255 - 1 / 2) * 2\<bar> \<le> 1 / 2 ^ 50)"
    using img_norm_range by blast
  have "y = [[- (5404319552844595 / 9007199254740992)]]" using y(1) e by simp
  then show ?thesis using y(2) e by simp
qed

section \<open>Properties of the configuration\<close>

lemma keys_dom: "keys d = dom (map_of d)"
  by (simp add: keys_def dom_map_of_conv_image_fst)

lemma keys_update: "keys (AList.update k v d) = insert k (keys d)"
  by (simp add: keys_def dom_update)

lemma keys_Cons: "keys ((k, v) # d) = insert k (keys d)"
  by (simp add: keys_def)

lemma merge_items_Cons:
  "(\<exists>e. merge_items np ((k, v) # rest) b = (Some e, b)) \<or>
   (\<exists>e w. map_of b k \<noteq> None \<and> merge_items np ((k, v) # rest) b = (Some e, AList.update k w b)) \<or>
   (\<exists>old w. map_of b k = Some old \<and>
      merge_items np ((k, v) # rest) b = merge_items np rest (AList.update k w b) \<and>
      (type_of old = type_of v \<and> type_of v \<noteq> TEDict \<longrightarrow> w = v))"
proof (cases "map_of b k")
  case None
  then show ?thesis by simp
next
  case (Some old)
  show ?thesis
  proof (cases "type_of old = type_of v")
    case False
    then show ?thesis using Some
      by (cases old) (auto split: sum.splits)
  next
    case True
    show ?thesis
    proof (cases "\<exists>va vb. v = VEDict va \<and> old = VEDict vb")
      case True
      then obtain va vb where "v = VEDict va" "old = VEDict vb" by blast
      then show ?thesis using Some
        by (cases "merge_items np va vb") (auto split: option.splits)
    next
      case False
      then have "merge_items np ((k, v) # rest) b = merge_items np rest (AList.update k v b)"
        using Some True by (cases v; cases old) auto
      then show ?thesis using Some by auto
    qed
  qed
qed


lemma merge_items_keys: "keys (snd (merge_items np a b)) = keys b"
proof (induction a arbitrary: b)
  case Nil
  then show ?case by simp
next
  case (Cons p a)
  obtain k v where p: "p = (k, v)" by (cases p)
  have ins: "keys (AList.update k w b) = keys b" if "map_of b k \<noteq> None" for w
  proof -
    have "k \<in> keys b" using that by (auto simp: keys_dom)
    then show ?thesis by (simp add: keys_update insert_absorb)
  qed
  show ?case
    using merge_items_Cons [of np k v a b] Cons.IH ins unfolding p
    by (elim disjE exE conjE) simp_all
qed

lemma merge_items_success_keys:
  "fst (merge_items np a b) = None \<Longrightarrow> keys a \<subseteq> keys b"
proof (induction a arbitrary: b)
  case Nil
  then show ?case by (simp add: keys_def)
next
  case (Cons p a)
  obtain k v where p: "p = (k, v)" by (cases p)
  from merge_items_Cons [of np k v a b] Cons.prems
  obtain old w where old: "map_of b k = Some old"
    and step: "merge_items np ((k, v) # a) b = merge_items np a (AList.update k w b)"
    unfolding p by (elim disjE exE conjE) simp_all
  have kb: "k \<in> keys b" using old by (auto simp: keys_dom)
  have "keys a \<subseteq> keys (AList.update k w b)"
    using Cons.IH [of "AList.update k w b"] Cons.prems step unfolding p by simp
  then show ?case using kb unfolding p by (auto simp: keys_update keys_Cons)
qed

lemma merge_items_other:
  "k \<notin> keys a \<Longrightarrow> map_of (snd (merge_items np a b)) k = map_of b k"
proof (induction a arbitrary: b)
  case Nil
  then show ?case by simp
next
  case (Cons p a)
  obtain k' v where p: "p = (k', v)" by (cases p)
  have ne: "k \<noteq> k'" and rest: "k \<notin> keys a"
    using Cons.prems unfolding p by (auto simp: keys_Cons)
  have up: "map_of (AList.update k' w b) k = map_of b k" for w
    using ne by (simp add: update_conv')
  show ?case
    using merge_items_Cons [of np k' v a b] Cons.IH [OF rest] up unfolding p
    by (elim disjE exE conjE) simp_all
qed

lemma merge_items_scalar:
  assumes "distinct (map fst a)" "map_of a k = Some v" "map_of b k = Some old"
    "type_of old = type_of v" "type_of v \<noteq> TEDict" "fst (merge_items np a b) = None"
  shows "map_of (snd (merge_items np a b)) k = Some v"
  using assms
proof (induction a arbitrary: b)
  case Nil
  then show ?case by simp
next
  case (Cons p a)
  obtain k' v' where p: "p = (k', v')" by (cases p)
  from merge_items_Cons [of np k' v' a b] Cons.prems(6)
  obtain old' w where old': "map_of b k' = Some old'"
    and step: "merge_items np ((k', v') # a) b = merge_items np a (AList.update k' w b)"
    and w: "type_of old' = type_of v' \<and> type_of v' \<noteq> TEDict \<longrightarrow> w = v'"
    unfolding p by (elim disjE exE conjE) simp_all
  show ?case
  proof (cases "k' = k")
    case True
    then have v: "v' = v" using Cons.prems(2) unfolding p by simp
    have "old' = old" using old' True Cons.prems(3) by simp
    then have wv: "w = v" using w v Cons.prems(4,5) by simp
    have notin: "k \<notin> keys a" using Cons.prems(1) True unfolding p by (simp add: keys_def)
    show ?thesis
      unfolding p step
      using merge_items_other [OF notin, of np "AList.update k' w b"] True wv
      by (simp add: update_conv')
  next
    case False
    have d: "distinct (map fst a)" using Cons.prems(1) by simp
    have r: "map_of a k = Some v" using Cons.prems(2) False unfolding p by simp
    have up: "map_of (AList.update k' w b) k = Some old"
      using False Cons.prems(3) by (simp add: update_conv')
    have ok: "fst (merge_items np a (AList.update k' w b)) = None"
      using Cons.prems(6) unfolding p step .
    show ?thesis
      unfolding p step
      by (rule Cons.IH [OF d r up Cons.prems(4) Cons.prems(5) ok])
  qed
qed

lemma merge_simple_map_of:
  "distinct (map fst a) \<Longrightarrow> map_of (merge_a_into_b_simple a b) = map_of b ++ map_of a"
proof (induction a arbitrary: b)
  case Nil
  then show ?case by (simp add: merge_a_into_b_simple_def)
next
  case (Cons p a)
  obtain k v where p: "p = (k, v)" by (cases p)
  have notin: "k \<notin> dom (map_of a)"
    using Cons.prems by (simp add: p dom_map_of_conv_image_fst)
  have "map_of (merge_a_into_b_simple (p # a) b) = map_of (merge_a_into_b_simple a (AList.update k v b))"
    by (simp add: merge_a_into_b_simple_def p)
  also have "\<dots> = (map_of b)(k \<mapsto> v) ++ map_of a"
  proof -
    have "distinct (map fst a)" using Cons.prems by simp
    then show ?thesis
      using Cons.IH [of "AList.update k v b"] by (simp only: update_conv')
  qed
  also have "\<dots> = (map_of b ++ map_of a)(k \<mapsto> v)"
    using notin by (rule map_add_upd_left)
  finally show ?case
    unfolding p by (simp only: map_of.simps map_add_upd fst_conv snd_conv)
qed

lemma merge_items_flat_succeeds:
  assumes "\<forall>(k, v) \<in> set a. \<exists>old. map_of b k = Some old \<and> type_of old = type_of v \<and> type_of v \<noteq> TEDict"
  shows "fst (merge_items np a b) = None"
  using assms
proof (induction a arbitrary: b)
  case Nil
  then show ?case by simp
next
  case (Cons p a)
  obtain k v where p: "p = (k, v)" by (cases p)
  from Cons.prems obtain old where old: "map_of b k = Some old" "type_of old = type_of v" "type_of v \<noteq> TEDict"
    unfolding p by auto
  have nd: "\<And>xs ys. (v, old) \<noteq> (VEDict xs, VEDict ys)" using old(3) by auto
  have step: "merge_items np ((k, v) # a) b = merge_items np a (AList.update k v b)"
    using old nd by (auto split: val.splits)
  have "\<exists>old'. map_of (AList.update k v b) k' = Some old' \<and>
          type_of old' = type_of v' \<and> type_of v' \<noteq> TEDict" if "(k', v') \<in> set a" for k' v'
  proof -
    from Cons.prems that obtain o' where o': "map_of b k' = Some o'" "type_of o' = type_of v'"
      "type_of v' \<noteq> TEDict" by fastforce
    show ?thesis
    proof (cases "k' = k")
      case True
      then have "o' = old" using o'(1) old(1) by simp
      then show ?thesis using True o' old by (simp add: update_conv')
    next
      case False
      then show ?thesis using o' by (simp add: update_conv')
    qed
  qed
  then have "\<forall>(k', v') \<in> set a. \<exists>old'. map_of (AList.update k v b) k' = Some old' \<and>
          type_of old' = type_of v' \<and> type_of v' \<noteq> TEDict"
    by blast
  then show ?case unfolding p step by (rule Cons.IH)
qed

text \<open>
  C1, as amended. When a config dict is given, \<open>flags\<close> names a YAML file, the file
  loads and its mapping merges into the config dict without an exception, the result
  is that merged mapping overridden by \<open>flags\<close>: it has exactly the keys of the three
  sources; a key of \<open>flags\<close> has the value of \<open>flags\<close>; a key outside \<open>flags\<close> has
  the value of the merged mapping, which for a key of the file whose value is not a
  nested mapping and has the type of the config dict's value is the value of the file;
  a key of neither \<open>flags\<close> nor the file keeps the value of the config dict.
\<close>

theorem load_config_yaml_precedence:
  assumes flags: "distinct (map fst flags)" "map_of flags ''YAML_FILE'' = Some yaml_filename"
    and yaml: "yaml_load yaml_filename = Inr yaml_cfg" "distinct (map fst yaml_cfg)"
    and ok: "merge_items np_array yaml_cfg config_dict = (None, config_yaml_dict)"
  shows "\<exists>result.
           load_config_yaml np_array yaml_load flags (Some config_dict) =
             (Inr result, [''Using input flags, config file, and yaml file.'']) \<and>
           keys result = keys flags \<union> keys yaml_cfg \<union> keys config_dict \<and>
           (\<forall>k v. map_of flags k = Some v \<longrightarrow> map_of result k = Some v) \<and>
           (\<forall>k. k \<notin> keys flags \<longrightarrow> map_of result k = map_of config_yaml_dict k) \<and>
           (\<forall>k v old. k \<notin> keys flags \<and> map_of yaml_cfg k = Some v \<and>
                map_of config_dict k = Some old \<and> type_of old = type_of v \<and>
                type_of v \<noteq> TEDict \<longrightarrow> map_of result k = Some v) \<and>
           (\<forall>k. k \<notin> keys flags \<and> k \<notin> keys yaml_cfg \<longrightarrow>
                map_of result k = map_of config_dict k)"
proof -
  let ?r = "merge_a_into_b_simple flags config_yaml_dict"
  have run: "load_config_yaml np_array yaml_load flags (Some config_dict) =
               (Inr ?r, [''Using input flags, config file, and yaml file.''])"
    using flags(2) yaml(1) ok
    by (simp add: load_config_yaml_def cfg_from_file_def merge_a_into_b_def)
  have m: "map_of ?r = map_of config_yaml_dict ++ map_of flags"
    using flags(1) by (rule merge_simple_map_of)
  have cyd: "config_yaml_dict = snd (merge_items np_array yaml_cfg config_dict)"
    and s: "fst (merge_items np_array yaml_cfg config_dict) = None"
    using ok by simp_all
  have k1: "keys config_yaml_dict = keys config_dict"
    unfolding cyd by (rule merge_items_keys)
  have k2: "keys yaml_cfg \<subseteq> keys config_dict"
    using s by (rule merge_items_success_keys)
  have c1: "keys ?r = keys flags \<union> keys yaml_cfg \<union> keys config_dict"
    using k1 k2 by (auto simp: keys_dom m)
  have c2: "map_of ?r k = Some v" if "map_of flags k = Some v" for k v
    using that by (simp add: m)
  have c3: "map_of ?r k = map_of config_yaml_dict k" if "k \<notin> keys flags" for k
    using that by (simp add: m keys_dom map_add_dom_app_simps)
  have c4: "map_of ?r k = Some v"
    if "k \<notin> keys flags" "map_of yaml_cfg k = Some v" "map_of config_dict k = Some old"
       "type_of old = type_of v" "type_of v \<noteq> TEDict" for k v old
    using c3 [OF that(1)] merge_items_scalar [OF yaml(2) that(2) that(3) that(4) that(5) s]
    by (simp add: cyd)
  have c5: "map_of ?r k = map_of config_dict k" if "k \<notin> keys flags" "k \<notin> keys yaml_cfg" for k
    using c3 [OF that(1)] merge_items_other [OF that(2), of np_array config_dict]
    by (simp add: cyd)
  show ?thesis
    using run c1 c2 c3 c4 c5 by blast
qed

lemma first_missing_None: "first_missing ks d = None \<longleftrightarrow> set ks \<subseteq> keys d"
  by (induction ks) auto

lemma first_missing_Some: "first_missing ks d = Some key \<Longrightarrow> key \<in> set ks \<and> key \<notin> keys d"
  by (induction ks) (auto split: if_splits)

lemma fill_optional_map_of:
  "map_of (fst (fill_optional ks d)) k =
     (if k \<in> set ks \<and> k \<notin> keys d then Some VNone else map_of d k)"
proof (induction ks arbitrary: d)
  case Nil
  then show ?case by simp
next
  case (Cons key ks)
  show ?case
  proof (cases "key \<in> keys d")
    case True
    then show ?thesis using Cons.IH [of d] by auto
  next
    case False
    then have "fst (fill_optional (key # ks) d) = fst (fill_optional ks (AList.update key VNone d))"
      by (simp add: split_beta)
    then show ?thesis
      using Cons.IH [of "AList.update key VNone d"] False
      by (auto simp: keys_update update_conv')
  qed
qed

lemma fill_optional_keys: "keys (fst (fill_optional ks d)) = keys d \<union> set ks"
  by (auto simp: keys_dom fill_optional_map_of dom_def split: if_splits)

theorem load_config_yaml_precedence_witness:
  "distinct (map fst [(''A'', VInt 1), (''YAML_FILE'', VStr ''cfg.yml'')]) \<and>
   map_of [(''A'', VInt 1), (''YAML_FILE'', VStr ''cfg.yml'')] ''YAML_FILE'' = Some (VStr ''cfg.yml'') \<and>
   one_file [(''B'', VInt 3)] (VStr ''cfg.yml'') = Inr [(''B'', VInt 3)] \<and>
   distinct (map fst [(''B'', VInt 3)]) \<and>
   merge_items no_np_array [(''B'', VInt 3)] [(''B'', VInt 4), (''C'', VInt 5)] =
     (None, [(''B'', VInt 3), (''C'', VInt 5)]) \<and>
   (\<exists>result.
      load_config_yaml no_np_array (one_file [(''B'', VInt 3)])
        [(''A'', VInt 1), (''YAML_FILE'', VStr ''cfg.yml'')] (Some [(''B'', VInt 4), (''C'', VInt 5)]) =
        (Inr result, [''Using input flags, config file, and yaml file.'']) \<and>
      map_of result ''A'' = Some (VInt 1) \<and> map_of result ''B'' = Some (VInt 3) \<and>
      map_of result ''C'' = Some (VInt 5))"
proof -
  let ?flags = "[(''A'', VInt 1), (''YAML_FILE'', VStr ''cfg.yml'')]"
  let ?yaml = "[(''B'', VInt 3)]"
  let ?cd = "[(''B'', VInt 4), (''C'', VInt 5)]"
  have h: "distinct (map fst ?flags)" "map_of ?flags ''YAML_FILE'' = Some (VStr ''cfg.yml'')"
    "one_file ?yaml (VStr ''cfg.yml'') = Inr ?yaml" "distinct (map fst ?yaml)"
    "merge_items no_np_array ?yaml ?cd = (None, [(''B'', VInt 3), (''C'', VInt 5)])"
    by (simp_all add: one_file_def)
  have k: "''B'' \<notin> keys ?flags" "''C'' \<notin> keys ?flags" "''C'' \<notin> keys ?yaml"
    by (simp_all add: keys_def)
  from load_config_yaml_precedence
    [where flags = ?flags and yaml_load = "one_file ?yaml" and yaml_filename = "VStr ''cfg.yml''"
       and yaml_cfg = ?yaml and np_array = no_np_array and config_dict = ?cd, OF h]
  obtain result where r:
    "load_config_yaml no_np_array (one_file ?yaml) ?flags (Some ?cd) =
       (Inr result, [''Using input flags, config file, and yaml file.''])"
    "\<forall>k v. map_of ?flags k = Some v \<longrightarrow> map_of result k = Some v"
    "\<forall>k v old. k \<notin> keys ?flags \<and> map_of ?yaml k = Some v \<and>
        map_of ?cd k = Some old \<and> type_of old = type_of v \<and>
        type_of v \<noteq> TEDict \<longrightarrow> map_of result k = Some v"
    "\<forall>k. k \<notin> keys ?flags \<and> k \<notin> keys ?yaml \<longrightarrow> map_of result k = map_of ?cd k"
    by blast
  have a: "map_of result ''A'' = Some (VInt 1)" using r(2) by simp
  have b: "map_of result ''B'' = Some (VInt 3)"
    using r(3) k(1) by (elim allE [of _ "''B''"] allE [of _ "VInt 3"] allE [of _ "VInt 4"]) simp
  have c: "map_of result ''C'' = Some (VInt 5)"
    using r(4) k(2,3) by (elim allE [of _ "''C''"]) simp
  show ?thesis using h r(1) a b c by blast
qed

text \<open>
  The claim as stated fails. With the flags, file and config dict of the specification's
  own example (and the file named in the flags), the key \<open>A\<close> of the file is not a key
  of the config dict: the result is the config dict alone, without \<open>A\<close> and with
  \<open>B = 4\<close>. A value of the file of another type than the config dict's ends the call
  with a ValueError. A nested mapping of the file is merged into the nested mapping of
  the config dict, so the result is not the value of the file.
\<close>

theorem load_config_yaml_precedence_counterexample:
  "load_config_yaml no_np_array (one_file [(''A'', VInt 2), (''B'', VInt 3)])
     [(''A'', VInt 1), (''YAML_FILE'', VStr ''cfg.yml'')] (Some [(''B'', VInt 4), (''C'', VInt 5)]) =
     (Inr [(''B'', VInt 4), (''C'', VInt 5)],
      [''Yaml File not specified. Using only input flags and config file.'']) \<and>
   load_config_yaml no_np_array (one_file [(''B'', VStr ''x'')])
     [(''A'', VInt 1), (''YAML_FILE'', VStr ''cfg.yml'')] (Some [(''B'', VInt 4), (''C'', VInt 5)]) =
     (Inl (ValueError ''B''), []) \<and>
   load_config_yaml no_np_array (one_file [(''B'', VEDict [(''x'', VInt 1)])])
     [(''YAML_FILE'', VStr ''cfg.yml'')]
     (Some [(''B'', VEDict [(''x'', VInt 0), (''y'', VInt 2)])]) =
     (Inr [(''B'', VEDict [(''x'', VInt 1), (''y'', VInt 2)]), (''YAML_FILE'', VStr ''cfg.yml'')],
      [''Using input flags, config file, and yaml file.''])"
  by code_simp

text \<open>
  Without \<open>YAML_FILE\<close> in the flags the method prints that it uses the flags and the
  config dict, and returns the config dict alone.
\<close>

lemma load_config_yaml_without_yaml_file:
  "load_config_yaml no_np_array (one_file []) [(''A'', VInt 1)] (Some [(''B'', VInt 4), (''C'', VInt 5)]) =
     (Inr [(''B'', VInt 4), (''C'', VInt 5)],
      [''Yaml File not specified. Using only input flags and config file.''])"
  by code_simp

text \<open>
  C5. When \<open>MODEL_DIRECTORY\<close> or \<open>SAVE_DIRECTORY\<close> is missing, \<open>check_dict_keys\<close>
  prints the line naming the first missing key and exits the process. Otherwise it
  returns the mapping with every key it had unchanged, every missing optional key set
  to \<open>None\<close>, a missing \<open>RUN_NUM\<close> set to 0 and a missing \<open>NUM_EPOCHS\<close> set to 1,
  and no other key.
\<close>

theorem check_dict_keys_defaults:
  "(''MODEL_DIRECTORY'' \<notin> keys d \<or> ''SAVE_DIRECTORY'' \<notin> keys d \<longrightarrow>
      (\<exists>key. key \<in> set crucial_keys \<and> key \<notin> keys d \<and>
         check_dict_keys d = (Inl SystemExit, [''You must define '' @ key @ ''. Now exiting...'']))) \<and>
   (''MODEL_DIRECTORY'' \<in> keys d \<and> ''SAVE_DIRECTORY'' \<in> keys d \<longrightarrow>
      (\<exists>d'. fst (check_dict_keys d) = Inr d' \<and>
         (\<forall>k \<in> keys d. map_of d' k = map_of d k) \<and>
         (\<forall>k \<in> set optional_keys. k \<notin> keys d \<longrightarrow> map_of d' k = Some VNone) \<and>
         (''RUN_NUM'' \<notin> keys d \<longrightarrow> map_of d' ''RUN_NUM'' = Some (VInt 0)) \<and>
         (''NUM_EPOCHS'' \<notin> keys d \<longrightarrow> map_of d' ''NUM_EPOCHS'' = Some (VInt 1)) \<and>
         keys d' = keys d \<union> set optional_keys \<union> {''RUN_NUM'', ''NUM_EPOCHS''}))"
proof (intro conjI impI)
  assume "''MODEL_DIRECTORY'' \<notin> keys d \<or> ''SAVE_DIRECTORY'' \<notin> keys d"
  then have "\<not> set crucial_keys \<subseteq> keys d" by (auto simp: crucial_keys_def)
  then obtain key where key: "first_missing crucial_keys d = Some key"
    using first_missing_None [of crucial_keys d] by (cases "first_missing crucial_keys d") auto
  then show "\<exists>key. key \<in> set crucial_keys \<and> key \<notin> keys d \<and>
         check_dict_keys d = (Inl SystemExit, [''You must define '' @ key @ ''. Now exiting...''])"
    using first_missing_Some [OF key] by (auto simp: check_dict_keys_def)
next
  assume "''MODEL_DIRECTORY'' \<in> keys d \<and> ''SAVE_DIRECTORY'' \<in> keys d"
  then have none: "first_missing crucial_keys d = None"
    by (simp add: first_missing_None crucial_keys_def)
  define d1 where "d1 = fst (fill_optional optional_keys d)"
  define d2 where "d2 = (if ''RUN_NUM'' \<notin> keys d1 then AList.update ''RUN_NUM'' (VInt 0) d1 else d1)"
  define d3 where "d3 = (if ''NUM_EPOCHS'' \<notin> keys d2 then AList.update ''NUM_EPOCHS'' (VInt 1) d2 else d2)"
  have run: "fst (check_dict_keys d) = Inr d3"
    using none by (simp add: check_dict_keys_def d1_def d2_def d3_def split_beta Let_def)
  have m1: "map_of d1 k = (if k \<in> set optional_keys \<and> k \<notin> keys d then Some VNone else map_of d k)" for k
    unfolding d1_def by (rule fill_optional_map_of)
  have k1: "keys d1 = keys d \<union> set optional_keys"
    unfolding d1_def by (rule fill_optional_keys)
  have opt: "''RUN_NUM'' \<notin> set optional_keys" "''NUM_EPOCHS'' \<notin> set optional_keys"
    by (simp_all add: optional_keys_def)
  have m2: "map_of d2 k = (if k = ''RUN_NUM'' \<and> ''RUN_NUM'' \<notin> keys d then Some (VInt 0) else map_of d1 k)" for k
    using opt by (simp add: d2_def k1 update_conv')
  have k2: "keys d2 = keys d1 \<union> {''RUN_NUM''}"
    by (auto simp: d2_def keys_update)
  have m3: "map_of d3 k = (if k = ''NUM_EPOCHS'' \<and> ''NUM_EPOCHS'' \<notin> keys d then Some (VInt 1) else map_of d2 k)" for k
    using opt by (simp add: d3_def k2 k1 update_conv')
  have k3: "keys d3 = keys d2 \<union> {''NUM_EPOCHS''}"
    by (auto simp: d3_def keys_update)
  have a: "\<forall>k \<in> keys d. map_of d3 k = map_of d k"
    by (auto simp: m3 m2 m1)
  have b: "\<forall>k \<in> set optional_keys. k \<notin> keys d \<longrightarrow> map_of d3 k = Some VNone"
    using opt by (auto simp: m3 m2 m1)
  have c: "''RUN_NUM'' \<notin> keys d \<longrightarrow> map_of d3 ''RUN_NUM'' = Some (VInt 0)"
    by (simp add: m3 m2)
  have e: "''NUM_EPOCHS'' \<notin> keys d \<longrightarrow> map_of d3 ''NUM_EPOCHS'' = Some (VInt 1)"
    by (simp add: m3)
  have f: "keys d3 = keys d \<union> set optional_keys \<union> {''RUN_NUM'', ''NUM_EPOCHS''}"
    by (auto simp: k3 k2 k1)
  show "\<exists>d'. fst (check_dict_keys d) = Inr d' \<and>
         (\<forall>k \<in> keys d. map_of d' k = map_of d k) \<and>
         (\<forall>k \<in> set optional_keys. k \<notin> keys d \<longrightarrow> map_of d' k = Some VNone) \<and>
         (''RUN_NUM'' \<notin> keys d \<longrightarrow> map_of d' ''RUN_NUM'' = Some (VInt 0)) \<and>
         (''NUM_EPOCHS'' \<notin> keys d \<longrightarrow> map_of d' ''NUM_EPOCHS'' = Some (VInt 1)) \<and>
         keys d' = keys d \<union> set optional_keys \<union> {''RUN_NUM'', ''NUM_EPOCHS''}"
    using run a b c e f by blast
qed

theorem check_dict_keys_defaults_witness:
  "check_dict_keys [(''MODEL_DIRECTORY'', VStr ''conv/''), (''SEED'', VInt 3)] =
     (Inl SystemExit, [''You must define SAVE_DIRECTORY. Now exiting...'']) \<and>
   ''MODEL_DIRECTORY'' \<in> keys demo_config \<and> ''SAVE_DIRECTORY'' \<in> keys demo_config \<and>
   (\<exists>d'. fst (check_dict_keys demo_config) = Inr d' \<and>
      map_of d' ''SEED'' = Some (VInt 3) \<and> map_of d' ''NUM_EPOCHS'' = Some (VInt 20) \<and>
      map_of d' ''GPU'' = Some VNone \<and> map_of d' ''RUN_NUM'' = Some (VInt 0))"
proof -
  have k: "keys demo_config = {''MODEL_DIRECTORY'', ''SAVE_DIRECTORY'', ''SEED'', ''NUM_EPOCHS''}"
    by (auto simp: keys_def demo_config_def)
  have m: "map_of demo_config ''SEED'' = Some (VInt 3)" "map_of demo_config ''NUM_EPOCHS'' = Some (VInt 20)"
    by (simp_all add: demo_config_def)
  have e: "check_dict_keys [(''MODEL_DIRECTORY'', VStr ''conv/''), (''SEED'', VInt 3)] =
     (Inl SystemExit, [''You must define SAVE_DIRECTORY. Now exiting...''])"
    by (simp add: check_dict_keys_def crucial_keys_def keys_def)
  show ?thesis
    using check_dict_keys_defaults [of demo_config] e k m
    by (auto simp: optional_keys_def)
qed

section \<open>Properties of the slim restore\<close>

lemma set_update_subset: "set (AList.update k v al) \<subseteq> insert (k, v) (set al)"
  by (induction al) auto

lemma select_variables_sound:
  "(name, v) \<in> set (select_variables ckpt vs acc) \<Longrightarrow>
     (name, v) \<in> set acc \<or>
     (v \<in> set vs \<and> name_in_checkpoint v = Some name \<and> name \<in> fst ` set ckpt)"
proof (induction vs arbitrary: acc)
  case Nil
  then show ?case by simp
next
  case (Cons w vs)
  show ?case
  proof (cases "name_in_checkpoint w")
    case None
    then show ?thesis using Cons.IH [of acc] Cons.prems by (auto simp: name_in_def)
  next
    case (Some s)
    show ?thesis
    proof (cases "s \<in> fst ` set ckpt")
      case False
      then show ?thesis using Some Cons.IH [of acc] Cons.prems by (auto simp: name_in_def)
    next
      case True
      then have "(name, v) \<in> set (select_variables ckpt vs (AList.update s w acc))"
        using Some Cons.prems by (simp add: name_in_def)
      then have "(name, v) \<in> set (AList.update s w acc) \<or>
         (v \<in> set vs \<and> name_in_checkpoint v = Some name \<and> name \<in> fst ` set ckpt)"
        by (rule Cons.IH)
      then show ?thesis
        using set_update_subset [of s w acc] Some True by auto
    qed
  qed
qed



lemma select_variables_Cons:
  "select_variables ckpt (w # vs) acc =
     (case name_in_checkpoint w of
        Some s \<Rightarrow> if s \<in> fst ` set ckpt then select_variables ckpt vs (AList.update s w acc)
                  else select_variables ckpt vs acc
      | None \<Rightarrow> select_variables ckpt vs acc)"
  by (simp add: name_in_def split: option.splits)

lemma select_variables_acc_keys:
  "fst ` set acc \<subseteq> fst ` set (select_variables ckpt vs acc)"
proof (induction vs arbitrary: acc)
  case Nil
  then show ?case by simp
next
  case (Cons w vs)
  have up: "fst ` set acc \<subseteq> fst ` set (AList.update s w acc)" for s
    by (simp add: dom_update subset_insertI)
  show ?case
  proof (cases "name_in_checkpoint w")
    case None
    then show ?thesis using Cons.IH [of acc] by (simp only: select_variables_Cons option.case)
  next
    case (Some s)
    show ?thesis
    proof (cases "s \<in> fst ` set ckpt")
      case True
      then have "select_variables ckpt (w # vs) acc = select_variables ckpt vs (AList.update s w acc)"
        using Some by (simp only: select_variables_Cons option.case if_True)
      then show ?thesis
        using Cons.IH [of "AList.update s w acc"] up [of s] by (simp only: subset_trans)
    next
      case False
      then have "select_variables ckpt (w # vs) acc = select_variables ckpt vs acc"
        using Some by (simp only: select_variables_Cons option.case if_False)
      then show ?thesis using Cons.IH [of acc] by simp
    qed
  qed
qed


lemma select_variables_complete:
  "v \<in> set vs \<Longrightarrow> name_in_checkpoint v = Some name \<Longrightarrow> name \<in> fst ` set ckpt \<Longrightarrow>
     name \<in> fst ` set (select_variables ckpt vs acc)"
proof (induction vs arbitrary: acc)
  case Nil
  then show ?case by simp
next
  case (Cons w vs)
  show ?case
  proof (cases "v = w")
    case True
    have "name \<in> fst ` set (AList.update name w acc)" by (simp add: dom_update)
    then have "name \<in> fst ` set (select_variables ckpt vs (AList.update name w acc))"
      using select_variables_acc_keys by blast
    moreover have "select_variables ckpt (w # vs) acc =
                   select_variables ckpt vs (AList.update name w acc)"
      using True Cons.prems(2,3) by (simp only: select_variables_Cons option.case if_True)
    ultimately show ?thesis by simp
  next
    case False
    then have v: "v \<in> set vs" using Cons.prems(1) by simp
    have ih: "name \<in> fst ` set (select_variables ckpt vs acc')" for acc'
      using Cons.IH [OF v Cons.prems(2) Cons.prems(3)] .
    show ?thesis
      unfolding select_variables_Cons using ih by (simp split: option.splits)
  qed
qed

lemma startswith_iff: "startswith s p \<longleftrightarrow> (\<exists>r. s = p @ r)"
proof
  assume "startswith s p"
  then have "take (length p) s @ drop (length p) s = p @ drop (length p) s"
    by (simp add: startswith_def)
  then have "s = p @ drop (length p) s" by (simp only: append_take_drop_id)
  then show "\<exists>r. s = p @ r" ..
next
  assume "\<exists>r. s = p @ r"
  then show "startswith s p" by (auto simp: startswith_def)
qed

lemma name_in_checkpoint_Some:
  "name_in_checkpoint v = Some name \<longleftrightarrow> op_name v = ''model/'' @ name"
proof
  assume a: "name_in_checkpoint v = Some name"
  then have s: "startswith (op_name v) ''model/''" and d: "drop (length ''model/'') (op_name v) = name"
    by (simp_all add: name_in_checkpoint_def split: if_splits)
  from s obtain r where r: "op_name v = ''model/'' @ r" unfolding startswith_iff ..
  then have "r = name" using d by simp
  then show "op_name v = ''model/'' @ name" using r by simp
next
  assume "op_name v = ''model/'' @ name"
  then show "name_in_checkpoint v = Some name"
    by (simp add: name_in_checkpoint_def startswith_def)
qed

text \<open>
  C10. \<open>name_in_checkpoint\<close> gives no name for a variable whose op name does not start
  with \<open>model/\<close>. When the checkpoint has been read, the map that \<open>_restore_slim\<close> hands
  to the saver holds a variable only under the name that its op name has after the
  prefix \<open>model/\<close>, and only if the checkpoint has that name; every such variable's
  name is a key of the map; a variable without the prefix is never in it.
\<close>

theorem slim_restore_needs_prefix:
  "(\<not> startswith (op_name v) ''model/'' \<longrightarrow> name_in_checkpoint v = None) \<and>
   (reader file = Inr ckpt \<longrightarrow>
      (\<exists>m. fst (restore_slim reader file variables) = Restored m \<and>
         (\<forall>name w. (name, w) \<in> set m \<longrightarrow>
            w \<in> set variables \<and> op_name w = ''model/'' @ name \<and> name \<in> fst ` set ckpt) \<and>
         (\<forall>name w. w \<in> set variables \<and> op_name w = ''model/'' @ name \<and> name \<in> fst ` set ckpt \<longrightarrow>
            name \<in> fst ` set m) \<and>
         (\<forall>w. \<not> startswith (op_name w) ''model/'' \<longrightarrow> w \<notin> snd ` set m)))"
proof (intro conjI impI)
  assume "\<not> startswith (op_name v) ''model/''"
  then show "name_in_checkpoint v = None" by (simp add: name_in_checkpoint_def)
next
  assume r: "reader file = Inr ckpt"
  let ?m = "select_variables ckpt variables []"
  have run: "fst (restore_slim reader file variables) = Restored ?m"
    using r by (simp add: restore_slim_def get_variables_in_checkpoint_file_def is_new_empty_list_def)
  have a: "\<forall>name w. (name, w) \<in> set ?m \<longrightarrow>
            w \<in> set variables \<and> op_name w = ''model/'' @ name \<and> name \<in> fst ` set ckpt"
  proof (intro allI impI)
    fix name w
    assume "(name, w) \<in> set ?m"
    then have "w \<in> set variables \<and> name_in_checkpoint w = Some name \<and> name \<in> fst ` set ckpt"
      using select_variables_sound [of name w ckpt variables "[]"] by simp
    then show "w \<in> set variables \<and> op_name w = ''model/'' @ name \<and> name \<in> fst ` set ckpt"
      by (simp only: name_in_checkpoint_Some)
  qed
  have b: "\<forall>name w. w \<in> set variables \<and> op_name w = ''model/'' @ name \<and> name \<in> fst ` set ckpt \<longrightarrow>
            name \<in> fst ` set ?m"
  proof (intro allI impI)
    fix name w
    assume "w \<in> set variables \<and> op_name w = ''model/'' @ name \<and> name \<in> fst ` set ckpt"
    then have "w \<in> set variables" "name_in_checkpoint w = Some name" "name \<in> fst ` set ckpt"
      by (simp_all only: name_in_checkpoint_Some)
    then show "name \<in> fst ` set ?m" by (rule select_variables_complete)
  qed
  have c: "\<forall>w. \<not> startswith (op_name w) ''model/'' \<longrightarrow> w \<notin> snd ` set ?m"
  proof (intro allI impI notI)
    fix w
    assume n: "\<not> startswith (op_name w) ''model/''" and "w \<in> snd ` set ?m"
    then obtain name where "(name, w) \<in> set ?m" by force
    then have "op_name w = ''model/'' @ name" using a by blast
    then show False using n by (simp add: startswith_iff)
  qed
  show "\<exists>m. fst (restore_slim reader file variables) = Restored m \<and>
         (\<forall>name w. (name, w) \<in> set m \<longrightarrow>
            w \<in> set variables \<and> op_name w = ''model/'' @ name \<and> name \<in> fst ` set ckpt) \<and>
         (\<forall>name w. w \<in> set variables \<and> op_name w = ''model/'' @ name \<and> name \<in> fst ` set ckpt \<longrightarrow>
            name \<in> fst ` set m) \<and>
         (\<forall>w. \<not> startswith (op_name w) ''model/'' \<longrightarrow> w \<notin> snd ` set m)"
    using run a b c by blast
qed

theorem slim_restore_needs_prefix_witness:
  "\<not> startswith (op_name \<lparr>op_name = ''conv_1/weights''\<rparr>) ''model/'' \<and>
   name_in_checkpoint \<lparr>op_name = ''conv_1/weights''\<rparr> = None \<and>
   demo_reader ''vgg.ckpt'' = Inr [(''conv_1/weights'', [3, 3, 1, 8])] \<and>
   fst (restore_slim demo_reader ''vgg.ckpt''
          [\<lparr>op_name = ''model/conv_1/weights''\<rparr>, \<lparr>op_name = ''conv_1/weights''\<rparr>]) =
     Restored [(''conv_1/weights'', \<lparr>op_name = ''model/conv_1/weights''\<rparr>)]"
proof -
  have h: "\<not> startswith (op_name \<lparr>op_name = ''conv_1/weights''\<rparr>) ''model/''"
    "demo_reader ''vgg.ckpt'' = Inr [(''conv_1/weights'', [3, 3, 1, 8])]"
    by (simp_all add: demo_reader_def startswith_def)
  have e: "fst (restore_slim demo_reader ''vgg.ckpt''
          [\<lparr>op_name = ''model/conv_1/weights''\<rparr>, \<lparr>op_name = ''conv_1/weights''\<rparr>]) =
     Restored [(''conv_1/weights'', \<lparr>op_name = ''model/conv_1/weights''\<rparr>)]"
    by code_simp
  show ?thesis
    using slim_restore_needs_prefix [of "\<lparr>op_name = ''conv_1/weights''\<rparr>" demo_reader "''vgg.ckpt''"
        "[(''conv_1/weights'', [3, 3, 1, 8])]"
        "[\<lparr>op_name = ''model/conv_1/weights''\<rparr>, \<lparr>op_name = ''conv_1/weights''\<rparr>]"] h e
    by simp
qed

text \<open>
  C6. The claim is what the source attempts; the code does not do it. The test
  \<open>variables_to_restore is []\<close> is false for every value, so \<open>_restore_slim\<close> never
  prints the mismatch and never exits: with a model variable that matches no name of
  the checkpoint it goes on to the saver with an empty map and reports the model as
  restored.
\<close>

theorem restore_slim_no_match_goes_on:
  "restore_slim demo_reader ''vgg.ckpt'' [\<lparr>op_name = ''model/fc_1/weights''\<rparr>] =
     (Restored [], [''Model restored from vgg.ckpt''])"
  by code_simp

lemma restore_slim_never_exits: "fst (restore_slim reader file variables) \<noteq> Raised SystemExit"
  by (simp add: restore_slim_def is_new_empty_list_def split: prod.splits option.splits)

section \<open>Properties of the layer builder\<close>

lemma conv2d_eq:
  "conv2d fs oc st pad bn act b s tr self =
     self\<lparr>count := (count self)\<lparr>conv := conv (count self) + 1\<rparr>,
          input := Layer (''conv_'' @ str_int (conv (count self) + 1))
                     (conv2d_op fs oc st pad bn act b s tr) (input self)\<rparr>"
  by (simp add: conv2d_def conv2d_op_def Let_def)

lemma conv2d_loop:
  "foldl (\<lambda>self l. conv2d (fs l) (oc l) (st l) (pad l) (bn l) (act l) (b l) (s l) tr self) self [0 ..< n] =
     self\<lparr>count := (count self)\<lparr>conv := conv (count self) + int n\<rparr>,
          input := foldl (\<lambda>t l. Layer (''conv_'' @ str_int (conv (count self) + 1 + int l))
                                 (conv2d_op (fs l) (oc l) (st l) (pad l) (bn l) (act l) (b l) (s l) tr) t)
                     (input self) [0 ..< n]\<rparr>"
  by (induction n) (simp_all add: conv2d_eq algebra_simps)

lemma deconv2d_loop:
  "foldl (\<lambda>self l. deconv2d (fs l) (oc l) (st l) (pad l) (act l) (b l) (s l) (bn l) tr self) self [0 ..< n] =
     self\<lparr>count := (count self)\<lparr>deconv := deconv (count self) + int n\<rparr>,
          input := foldl (\<lambda>t l. Layer (''deconv_'' @ str_int (deconv (count self) + 1 + int l))
                                 (Deconv2d (fs l) (oc l) (st l) (pad l) (act l) (b l) (s l) (bn l) tr) t)
                     (input self) [0 ..< n]\<rparr>"
  by (induction n) (simp_all add: deconv2d_def Let_def algebra_simps)

lemma chain_foldl_Layer:
  "chain (foldl (\<lambda>t l. Layer (name l) (op l) t) t0 ls) = chain t0 @ map (\<lambda>l. (name l, op l)) ls"
  by (induction ls arbitrary: t0) simp_all


text \<open>
  C8. With \<open>depth\<close> the number of filter sizes and every list left as \<open>None\<close> filled
  with its default: when the output channels or any other list has a length other than
  \<open>depth\<close>, \<open>convnet\<close> and \<open>deconvnet\<close> raise AssertionError and leave the builder
  as it was. Otherwise they return normally, having built exactly \<open>depth\<close> layers on
  top of the tensor, the \<open>l\<close>-th from the \<open>l\<close>-th entry of every list, in list order,
  under the next \<open>depth\<close> scope names of their kind.
\<close>

theorem convnet_checks_lengths:
  assumes "depth = length filter_size"
    and "st = or_default stride depth 1"
    and "pd = or_default padding depth ''SAME''"
    and "af = or_default activation_fn depth (Some ''relu'')"
    and "bv = or_default b_value depth (Some 0)"
    and "sv = or_default s_value depth (Some 1)"
    and "bs = or_default bn depth True"
  shows "(length output_channels \<noteq> depth \<or> length st \<noteq> depth \<or> length pd \<noteq> depth \<or>
          length af \<noteq> depth \<or> length bv \<noteq> depth \<or> length sv \<noteq> depth \<or> length bs \<noteq> depth \<longrightarrow>
            convnet filter_size output_channels stride padding activation_fn b_value s_value bn
              trainable self = (Some AssertionError, self) \<and>
            deconvnet filter_size output_channels stride padding activation_fn b_value s_value bn
              trainable self = (Some AssertionError, self)) \<and>
         (length output_channels = depth \<and> length st = depth \<and> length pd = depth \<and>
          length af = depth \<and> length bv = depth \<and> length sv = depth \<and> length bs = depth \<longrightarrow>
            (\<exists>self'.
               convnet filter_size output_channels stride padding activation_fn b_value s_value bn
                 trainable self = (None, self') \<and>
               count self' = (count self)\<lparr>conv := conv (count self) + int depth\<rparr> \<and>
               chain (input self') = chain (input self) @
                 map (\<lambda>l. (''conv_'' @ str_int (conv (count self) + 1 + int l),
                            conv2d_op (filter_size ! l) (output_channels ! l) (st ! l) (pd ! l) (bs ! l)
                              (af ! l) (bv ! l) (sv ! l) trainable))
                   [0 ..< depth]) \<and>
            (\<exists>self'.
               deconvnet filter_size output_channels stride padding activation_fn b_value s_value bn
                 trainable self = (None, self') \<and>
               count self' = (count self)\<lparr>deconv := deconv (count self) + int depth\<rparr> \<and>
               chain (input self') = chain (input self) @
                 map (\<lambda>l. (''deconv_'' @ str_int (deconv (count self) + 1 + int l),
                            Deconv2d (filter_size ! l) (output_channels ! l) (st ! l) (pd ! l) (af ! l)
                              (bv ! l) (sv ! l) (bs ! l) trainable))
                   [0 ..< depth]))"
proof (intro conjI impI)
  assume bad: "length output_channels \<noteq> depth \<or> length st \<noteq> depth \<or> length pd \<noteq> depth \<or>
          length af \<noteq> depth \<or> length bv \<noteq> depth \<or> length sv \<noteq> depth \<or> length bs \<noteq> depth"
  show "convnet filter_size output_channels stride padding activation_fn b_value s_value bn
              trainable self = (Some AssertionError, self)"
    using bad unfolding assms convnet_def or_default_def Let_def by auto
  show "deconvnet filter_size output_channels stride padding activation_fn b_value s_value bn
              trainable self = (Some AssertionError, self)"
    using bad unfolding assms deconvnet_def or_default_def Let_def by auto
next
  assume ok: "length output_channels = depth \<and> length st = depth \<and> length pd = depth \<and>
          length af = depth \<and> length bv = depth \<and> length sv = depth \<and> length bs = depth"
  let ?c = "foldl (\<lambda>self l. conv2d (filter_size ! l) (output_channels ! l) (st ! l) (pd ! l)
                    (bs ! l) (af ! l) (bv ! l) (sv ! l) trainable self) self [0 ..< depth]"
  have run: "convnet filter_size output_channels stride padding activation_fn b_value s_value bn
                 trainable self = (None, ?c)"
    using ok unfolding assms convnet_def or_default_def Let_def by simp
  show "\<exists>self'.
               convnet filter_size output_channels stride padding activation_fn b_value s_value bn
                 trainable self = (None, self') \<and>
               count self' = (count self)\<lparr>conv := conv (count self) + int depth\<rparr> \<and>
               chain (input self') = chain (input self) @
                 map (\<lambda>l. (''conv_'' @ str_int (conv (count self) + 1 + int l),
                            conv2d_op (filter_size ! l) (output_channels ! l) (st ! l) (pd ! l) (bs ! l)
                              (af ! l) (bv ! l) (sv ! l) trainable))
                   [0 ..< depth]"
    unfolding run by (simp add: conv2d_loop chain_foldl_Layer)
  let ?d = "foldl (\<lambda>self l. deconv2d (filter_size ! l) (output_channels ! l) (st ! l) (pd ! l)
                    (af ! l) (bv ! l) (sv ! l) (bs ! l) trainable self) self [0 ..< depth]"
  have rund: "deconvnet filter_size output_channels stride padding activation_fn b_value s_value bn
                 trainable self = (None, ?d)"
    using ok unfolding assms deconvnet_def or_default_def Let_def by simp
  show "\<exists>self'.
               deconvnet filter_size output_channels stride padding activation_fn b_value s_value bn
                 trainable self = (None, self') \<and>
               count self' = (count self)\<lparr>deconv := deconv (count self) + int depth\<rparr> \<and>
               chain (input self') = chain (input self) @
                 map (\<lambda>l. (''deconv_'' @ str_int (deconv (count self) + 1 + int l),
                            Deconv2d (filter_size ! l) (output_channels ! l) (st ! l) (pd ! l) (af ! l)
                              (bv ! l) (sv ! l) (bs ! l) trainable))
                   [0 ..< depth]"
    unfolding rund by (simp add: deconv2d_loop chain_foldl_Layer)
qed


theorem convnet_checks_lengths_witness:
  "(3::nat) = length [3, 5, 3 :: int] \<and>
   replicate 3 (1::rat) = or_default None 3 1 \<and>
   replicate 3 ''SAME'' = or_default None 3 ''SAME'' \<and>
   replicate 3 (Some ''relu'') = or_default None 3 (Some ''relu'') \<and>
   replicate 3 (Some (0::rat)) = or_default None 3 (Some 0) \<and>
   replicate 3 (Some (1::rat)) = or_default None 3 (Some 1) \<and>
   replicate 3 True = or_default None 3 True \<and>
   length [8, 16 :: int] \<noteq> 3 \<and>
   convnet [3, 5, 3] [8, 16] None None None None None None True (init_layers (Given ''x'')) =
     (Some AssertionError, init_layers (Given ''x'')) \<and>
   deconvnet [3, 5, 3] [8, 16] None None None None None None True (init_layers (Given ''x'')) =
     (Some AssertionError, init_layers (Given ''x'')) \<and>
   (\<exists>self'. convnet [3, 0] [8, 16] None None None None None None True (init_layers (Given ''x'')) =
              (None, self') \<and>
      chain (input self') =
        [(''conv_1'', Conv2d (Size 3) 8 1 ''SAME'' True (Some ''relu'') (Some 0) (Some 1) True),
         (''conv_2'', Conv2d InputWidth 16 1 ''VALID'' True (Some ''relu'') (Some 0) (Some 1) True)])"
proof -
  have s: "str_int 1 = ''1''" "str_int 2 = ''2''"
    by (simp_all add: str_int_def str_nat.simps digit_char_def)
  have u: "[0 ..< 2] = [0, Suc 0]"
    by (simp add: upt_conv_Cons)
  have a: "convnet [3, 5, 3] [8, 16] None None None None None None True (init_layers (Given ''x'')) =
             (Some AssertionError, init_layers (Given ''x'')) \<and>
           deconvnet [3, 5, 3] [8, 16] None None None None None None True (init_layers (Given ''x'')) =
             (Some AssertionError, init_layers (Given ''x''))"
    using convnet_checks_lengths
      [where depth = 3 and filter_size = "[3, 5, 3]" and output_channels = "[8, 16]"
         and stride = None and st = "replicate 3 1" and padding = None and pd = "replicate 3 ''SAME''"
         and activation_fn = None and af = "replicate 3 (Some ''relu'')"
         and b_value = None and bv = "replicate 3 (Some 0)"
         and s_value = None and sv = "replicate 3 (Some 1)"
         and bn = None and bs = "replicate 3 True"
         and trainable = True and self = "init_layers (Given ''x'')"]
    by (simp add: or_default_def)
  have b: "\<exists>self'. convnet [3, 0] [8, 16] None None None None None None True (init_layers (Given ''x'')) =
              (None, self') \<and>
      chain (input self') =
        [(''conv_1'', Conv2d (Size 3) 8 1 ''SAME'' True (Some ''relu'') (Some 0) (Some 1) True),
         (''conv_2'', Conv2d InputWidth 16 1 ''VALID'' True (Some ''relu'') (Some 0) (Some 1) True)]"
    using convnet_checks_lengths
      [where depth = 2 and filter_size = "[3, 0]" and output_channels = "[8, 16]"
         and stride = None and st = "replicate 2 1" and padding = None and pd = "replicate 2 ''SAME''"
         and activation_fn = None and af = "replicate 2 (Some ''relu'')"
         and b_value = None and bv = "replicate 2 (Some 0)"
         and s_value = None and sv = "replicate 2 (Some 1)"
         and bn = None and bs = "replicate 2 True"
         and trainable = True and self = "init_layers (Given ''x'')"]
    by (simp add: or_default_def init_layers_def conv2d_op_def s u) blast
  show ?thesis
    using a b by (simp add: or_default_def)
qed

text \<open>The scope name of \<open>avgpool\<close> in every state of the builder.\<close>

lemma avgpool_eq:
  "avgpool k s globe self =
     self\<lparr>count := (count self)\<lparr>ap := ap (count self) + 1\<rparr>,
          input := Layer (''avgpool_'' @ str_int (mp (count self))) (Avgpool k s globe) (input self)\<rparr>"
  by (simp add: avgpool_def Let_def)






















end
